theory Spec2Isabelle
  imports Main "HOL-Library.Sublist" "HOL-Library.AList"
begin

chapter \<open>The file handler of the devicon build scripts\<close>

text \<open>
  An embedding of \<^verbatim>\<open>.github/scripts/build_assets/filehandler.py\<close>: \<^verbatim>\<open>find_new_icons\<close> with
  \<^verbatim>\<open>is_not_in_icomoon_json\<close>, \<^verbatim>\<open>get_svgs_paths\<close> with \<^verbatim>\<open>is_alias\<close>, \<^verbatim>\<open>extract_files\<close>,
  \<^verbatim>\<open>rename_extracted_files\<close> and \<^verbatim>\<open>create_screenshot_folder\<close>. A function that touches the
  file system takes the world and returns its result with the new world; a raised
  exception is the result \<open>Inl\<close>. What the functions call in \<^verbatim>\<open>re\<close>, \<^verbatim>\<open>pathlib\<close>, \<^verbatim>\<open>os\<close> and
  \<^verbatim>\<open>zipfile\<close> is modelled as far as the functions use it, on a POSIX system.
\<close>

section \<open>Strings and the regular expressions of \<^verbatim>\<open>re\<close>\<close>

text \<open>
  A Python \<^verbatim>\<open>str\<close> is a list of code points; a \<^typ>\<open>char\<close> stands for one code point
  (below 256). \<^verbatim>\<open>is_not_in_icomoon_json\<close> builds the pattern \<^verbatim>\<open>f"^{icon['name']}-"\<close> and
  hands it to \<^verbatim>\<open>re.compile\<close>, so the icon's name is read as pattern syntax. The fragment
  of the syntax modelled here is: \<^verbatim>\<open>^\<close> (start of the string, no MULTILINE flag),
  \<^verbatim>\<open>.\<close> (any character but a newline, no DOTALL flag) and the literal characters, which
  are the characters outside \<^verbatim>\<open>SPECIAL_CHARS\<close> of the pattern parser. A pattern with any other
  special character (a repetition, a class, a group, an alternative, an escape, \<^verbatim>\<open>$\<close>) is
  outside the fragment: \<open>re_compile\<close> is \<open>None\<close> there and nothing is said about it.
\<close>

datatype re_atom = Literal char | AnyChar | AtBeginning

definition SPECIAL_CHARS :: string where
  "SPECIAL_CHARS = ''.'' @ [CHR 0x5C] @ ''[{()*+?^$|''"

fun re_compile :: "string \<Rightarrow> re_atom list option" where
  "re_compile [] = Some []"
| "re_compile (c # cs) =
     (if c = CHR ''.'' then map_option (Cons AnyChar) (re_compile cs)
      else if c = CHR ''^'' then map_option (Cons AtBeginning) (re_compile cs)
      else if c \<in> set SPECIAL_CHARS then None
      else map_option (Cons (Literal c)) (re_compile cs))"

text \<open>
  \<open>match_here p at_start s\<close>: the pattern matches at the current position, where \<open>s\<close> is
  the rest of the subject and \<open>at_start\<close> says that the position is the start of it.
\<close>

fun match_here :: "re_atom list \<Rightarrow> bool \<Rightarrow> string \<Rightarrow> bool" where
  "match_here [] at_start s = True"
| "match_here (AtBeginning # p) at_start s = (at_start \<and> match_here p at_start s)"
| "match_here (Literal c # p) at_start [] = False"
| "match_here (Literal c # p) at_start (x # xs) = (x = c \<and> match_here p False xs)"
| "match_here (AnyChar # p) at_start [] = False"
| "match_here (AnyChar # p) at_start (x # xs) = (x \<noteq> CHR 0x0A \<and> match_here p False xs)"

text \<open>\<^verbatim>\<open>pattern.search(s)\<close> tries every position of the subject, from the left.\<close>

fun search_from :: "re_atom list \<Rightarrow> bool \<Rightarrow> string \<Rightarrow> bool" where
  "search_from p at_start [] = match_here p at_start []"
| "search_from p at_start (x # xs) = (match_here p at_start (x # xs) \<or> search_from p False xs)"

definition re_search :: "re_atom list \<Rightarrow> string \<Rightarrow> bool" where
  "re_search p s = search_from p True s"

section \<open>The manifests\<close>

text \<open>
  The records of \<^verbatim>\<open>devicon.json\<close> and \<^verbatim>\<open>icomoon.json\<close> as the functions read them. The key
  \<^verbatim>\<open>aliases\<close> may be absent (\<open>None\<close>); the key \<^verbatim>\<open>alias\<close> of an alias is the field \<open>alias_of\<close>,
  and \<^verbatim>\<open>properties.name\<close> is \<open>prop_name\<close>.
\<close>

record alias_entry =
  alias_of :: string

record versions_entry =
  font :: "string list"

record icon =
  name :: string
  aliases :: "alias_entry list option"
  versions :: versions_entry

record properties_entry =
  prop_name :: string

record icomoon_entry =
  properties :: properties_entry

record icomoon =
  icons :: "icomoon_entry list"

section \<open>find\_new\_icons\<close>

text \<open>The loop of \<^verbatim>\<open>is_not_in_icomoon_json\<close>: \<open>False\<close> at the first font the pattern finds.\<close>

fun fonts_loop :: "re_atom list \<Rightarrow> icomoon_entry list \<Rightarrow> bool" where
  "fonts_loop pattern [] = True"
| "fonts_loop pattern (f # fonts) =
     (if re_search pattern (prop_name (properties f)) then False else fonts_loop pattern fonts)"

definition is_not_in_icomoon_json :: "icon \<Rightarrow> icomoon \<Rightarrow> bool option" where
  "is_not_in_icomoon_json ic icomoon_json =
     (case re_compile (''^'' @ name ic @ ''-'') of
        None \<Rightarrow> None
      | Some pattern \<Rightarrow> Some (fonts_loop pattern (icons icomoon_json)))"

text \<open>
  The loop of \<^verbatim>\<open>find_new_icons\<close> over the loaded \<^verbatim>\<open>devicon_json\<close>, with the list \<^verbatim>\<open>new_icons\<close>
  it appends to. The two manifests are the values \<^verbatim>\<open>json.load\<close> returned.
\<close>

fun new_icons_loop :: "icon list \<Rightarrow> icomoon \<Rightarrow> icon list \<Rightarrow> icon list option" where
  "new_icons_loop [] icomoon_json new_icons = Some new_icons"
| "new_icons_loop (ic # rest) icomoon_json new_icons =
     (case is_not_in_icomoon_json ic icomoon_json of
        None \<Rightarrow> None
      | Some True \<Rightarrow> new_icons_loop rest icomoon_json (new_icons @ [ic])
      | Some False \<Rightarrow> new_icons_loop rest icomoon_json new_icons)"

definition find_new_icons :: "icon list \<Rightarrow> icomoon \<Rightarrow> icon list option" where
  "find_new_icons devicon_json icomoon_json = new_icons_loop devicon_json icomoon_json []"

text \<open>A name is plain when none of its characters is special in a pattern.\<close>

definition plain :: "string \<Rightarrow> bool" where
  "plain s = list_all (\<lambda>c. c \<notin> set SPECIAL_CHARS) s"

text \<open>The prefix rule of the specification: some entry's name starts with \<^verbatim>\<open>name-\<close>.\<close>

definition published :: "icon \<Rightarrow> icomoon \<Rightarrow> bool" where
  "published ic icomoon_json =
     list_ex (\<lambda>f. prefix (name ic @ ''-'') (prop_name (properties f))) (icons icomoon_json)"

definition mk_icon :: "string \<Rightarrow> alias_entry list option \<Rightarrow> string list \<Rightarrow> icon" where
  "mk_icon n al vs = \<lparr>name = n, aliases = al, versions = \<lparr>font = vs\<rparr>\<rparr>"

definition mk_icomoon :: "string list \<Rightarrow> icomoon" where
  "mk_icomoon ns = \<lparr>icons = map (\<lambda>n. \<lparr>properties = \<lparr>prop_name = n\<rparr>\<rparr>) ns\<rparr>"

section \<open>Paths\<close>

text \<open>
  A \<^verbatim>\<open>pathlib\<close> path on POSIX: the anchor (empty for a relative path, one slash, or
  two when the string starts with exactly two) and the names, without the empty and
  the \<^verbatim>\<open>.\<close> components. \<^verbatim>\<open>Path(a, s)\<close> is \<open>joinpath a s\<close>: an anchored \<open>s\<close> replaces \<open>a\<close>.
\<close>

record ppath =
  anchor :: string
  names :: "string list"

fun split_sep :: "string \<Rightarrow> string list" where
  "split_sep [] = [[]]"
| "split_sep (c # cs) =
     (if c = CHR ''/'' then [] # split_sep cs
      else (case split_sep cs of [] \<Rightarrow> [[c]] | n # ns \<Rightarrow> (c # n) # ns))"

definition Path :: "string \<Rightarrow> ppath" where
  "Path s =
     \<lparr>anchor = (if take 2 s = ''//'' \<and> take 3 s \<noteq> ''///'' then ''//''
                else if take 1 s = ''/'' then ''/'' else []),
      names = filter (\<lambda>n. n \<noteq> [] \<and> n \<noteq> ''.'') (split_sep s)\<rparr>"

definition joinpath :: "ppath \<Rightarrow> string \<Rightarrow> ppath" where
  "joinpath a s =
     (let b = Path s
      in if anchor b \<noteq> [] then b else \<lparr>anchor = anchor a, names = names a @ names b\<rparr>)"

fun join_sep :: "string list \<Rightarrow> string" where
  "join_sep [] = []"
| "join_sep [n] = n"
| "join_sep (n # m # ns) = n @ ''/'' @ join_sep (m # ns)"

definition str :: "ppath \<Rightarrow> string" where
  "str p = (if anchor p = [] \<and> names p = [] then ''.'' else anchor p @ join_sep (names p))"

definition parent :: "ppath \<Rightarrow> ppath" where
  "parent p = \<lparr>anchor = anchor p, names = butlast (names p)\<rparr>"

section \<open>The world: file system, open archives, trace\<close>

text \<open>
  The file system is a table from canonical absolute paths (lists of names from the
  root, which is always a directory) to nodes; there are no symbolic links and no
  permissions. A regular file holds bytes or, for an archive, the table of its members.
  \<open>open_zips\<close> lists the open archive handles, each with its number and the archive file
  it reads; \<open>handles_made\<close> counts the handles opened so far and numbers the next one.
  The trace records what the program printed and every call it made to the system or
  to \<^verbatim>\<open>zipfile\<close> that succeeded, in order.
\<close>

type_synonym path = "string list"

datatype fdata = Bytes string | ZipArchive "(string \<times> string) list"

datatype node = File fdata | Dir

datatype event =
    Print string
  | ZipOpen string
  | ZipExtract string string
  | ZipClose string
  | OsRemove string
  | OsReplace string string
  | OsMkdir string

datatype py_error =
    FileNotFoundError
  | FileExistsError
  | NotADirectoryError
  | IsADirectoryError
  | OSError string
  | BadZipFile
  | KeyError string
  | ValueError string
  | Exception string

record world =
  nodes :: "(path \<times> node) list"
  cwd :: path
  open_zips :: "(nat \<times> path) list"
  handles_made :: nat
  trace :: "event list"

definition py_print :: "world \<Rightarrow> string \<Rightarrow> world" where
  "py_print w msg = w\<lparr>trace := trace w @ [Print msg]\<rparr>"

definition logged :: "event \<Rightarrow> (py_error + 'a) \<times> world \<Rightarrow> (py_error + 'a) \<times> world" where
  "logged ev r =
     (case r of (Inl e, w) \<Rightarrow> (Inl e, w) | (Inr x, w) \<Rightarrow> (Inr x, w\<lparr>trace := trace w @ [ev]\<rparr>))"

definition node_at :: "world \<Rightarrow> path \<Rightarrow> node option" where
  "node_at w q = (if q = [] then Some Dir else map_of (nodes w) q)"

text \<open>
  The limits of Linux on a name and on a path string, in bytes. A string is handed to
  the system in UTF-8: a code point below 128 is one byte, any other (below 256) two.
\<close>

definition NAME_MAX :: nat where
  "NAME_MAX = 255"

definition PATH_MAX :: nat where
  "PATH_MAX = 4096"

definition fs_length :: "string \<Rightarrow> nat" where
  "fs_length s = sum_list (map (\<lambda>c. if (of_char c :: nat) < 128 then 1 else 2) s)"

text \<open>
  The kernel's walk along the names of a path: every name is looked up in a directory
  that must exist (\<^verbatim>\<open>ENOENT\<close>, \<^verbatim>\<open>ENOTDIR\<close>), and a name longer than \<open>NAME_MAX\<close> is
  refused there (\<^verbatim>\<open>ENAMETOOLONG\<close>); \<^verbatim>\<open>..\<close> goes to the parent. The node of the last name
  is not looked at.
\<close>

fun walk :: "world \<Rightarrow> path \<Rightarrow> string list \<Rightarrow> py_error + path" where
  "walk w cur [] = Inr cur"
| "walk w cur (n # ns) =
     (case node_at w cur of
        None \<Rightarrow> Inl FileNotFoundError
      | Some (File d) \<Rightarrow> Inl NotADirectoryError
      | Some Dir \<Rightarrow>
          if NAME_MAX < fs_length n then Inl (OSError ''ENAMETOOLONG'')
          else walk w (if n = ''..'' then butlast cur else cur @ [n]) ns)"

definition locate :: "world \<Rightarrow> ppath \<Rightarrow> py_error + path" where
  "locate w p = walk w (if anchor p = [] then cwd w else []) (names p)"

text \<open>
  \<^verbatim>\<open>os.stat(str(path))\<close>: a path string of \<open>PATH_MAX\<close> bytes or more is refused before the
  walk (\<^verbatim>\<open>ENAMETOOLONG\<close>). The limit on the whole string is modelled for \<^verbatim>\<open>stat\<close>, which
  the checks of \<^verbatim>\<open>pathlib\<close> and \<^verbatim>\<open>os.path\<close> call; \<^verbatim>\<open>mkdir\<close>, \<^verbatim>\<open>rename\<close>, \<^verbatim>\<open>open\<close> and
  \<^verbatim>\<open>unlink\<close> below have the limit on each name only, through the walk.
\<close>

definition os_stat :: "world \<Rightarrow> ppath \<Rightarrow> py_error + node" where
  "os_stat w p =
     (if PATH_MAX \<le> fs_length (str p) then Inl (OSError ''ENAMETOOLONG'')
      else (case locate w p of
         Inl e \<Rightarrow> Inl e
       | Inr q \<Rightarrow> (case node_at w q of None \<Rightarrow> Inl FileNotFoundError | Some n \<Rightarrow> Inr n)))"

text \<open>
  \<^verbatim>\<open>Path.exists()\<close> and \<^verbatim>\<open>Path.is_dir()\<close> of \<^verbatim>\<open>pathlib\<close> (Python 3.8 to 3.12): the errors
  \<^verbatim>\<open>ENOENT\<close> and \<^verbatim>\<open>ENOTDIR\<close> of \<^verbatim>\<open>stat\<close> answer \<open>False\<close> (\<^verbatim>\<open>_ignore_error\<close>; \<^verbatim>\<open>EBADF\<close> and
  \<^verbatim>\<open>ELOOP\<close> do not arise here), every other \<^verbatim>\<open>OSError\<close> is raised again.
\<close>

definition ignore_error :: "py_error \<Rightarrow> bool" where
  "ignore_error e = (e = FileNotFoundError \<or> e = NotADirectoryError)"

definition exists :: "world \<Rightarrow> ppath \<Rightarrow> py_error + bool" where
  "exists w p =
     (case os_stat w p of
        Inr n \<Rightarrow> Inr True
      | Inl e \<Rightarrow> if ignore_error e then Inr False else Inl e)"

definition is_dir :: "world \<Rightarrow> ppath \<Rightarrow> py_error + bool" where
  "is_dir w p =
     (case os_stat w p of
        Inr Dir \<Rightarrow> Inr True
      | Inr (File x) \<Rightarrow> Inr False
      | Inl e \<Rightarrow> if ignore_error e then Inr False else Inl e)"

text \<open>
  \<^verbatim>\<open>os.path.exists\<close> and \<^verbatim>\<open>os.path.isdir\<close>, which \<^verbatim>\<open>zipfile\<close> and \<^verbatim>\<open>os.makedirs\<close> call: every
  error of \<^verbatim>\<open>stat\<close> answers \<open>False\<close>.
\<close>

definition os_path_exists :: "world \<Rightarrow> ppath \<Rightarrow> bool" where
  "os_path_exists w p = (case os_stat w p of Inl e \<Rightarrow> False | Inr n \<Rightarrow> True)"

definition os_path_isdir :: "world \<Rightarrow> ppath \<Rightarrow> bool" where
  "os_path_isdir w p = (case os_stat w p of Inr Dir \<Rightarrow> True | _ \<Rightarrow> False)"

text \<open>
  \<^verbatim>\<open>Path.resolve()\<close> without symbolic links: the path made absolute from the working
  directory, with \<^verbatim>\<open>..\<close> removed name by name.
\<close>

definition resolve :: "world \<Rightarrow> ppath \<Rightarrow> ppath" where
  "resolve w p =
     \<lparr>anchor = ''/'',
      names = foldl (\<lambda>acc n. if n = ''..'' then butlast acc else acc @ [n])
                (if anchor p = [] then cwd w else []) (names p)\<rparr>"

definition normal_last :: "ppath \<Rightarrow> bool" where
  "normal_last p = (names p \<noteq> [] \<and> last (names p) \<noteq> ''..'')"

text \<open>\<^verbatim>\<open>mkdir(2)\<close>: \<^verbatim>\<open>EEXIST\<close> when the path exists or does not end in a proper name.\<close>

definition mkdir_node :: "world \<Rightarrow> ppath \<Rightarrow> (py_error + unit) \<times> world" where
  "mkdir_node w p =
     (case locate w p of
        Inl e \<Rightarrow> (Inl e, w)
      | Inr q \<Rightarrow>
          if normal_last p \<and> node_at w q = None
          then (Inr (), w\<lparr>nodes := AList.update q Dir (nodes w)\<rparr>)
          else (Inl FileExistsError, w))"

definition os_mkdir :: "world \<Rightarrow> ppath \<Rightarrow> (py_error + unit) \<times> world" where
  "os_mkdir w p = logged (OsMkdir (str p)) (mkdir_node w p)"





text \<open>
  A path given to the system as a string, not through \<^verbatim>\<open>pathlib\<close>: the empty string is
  no path, and a string that ends in a slash or in \<^verbatim>\<open>.\<close> names a directory.
\<close>

definition names_directory :: "string \<Rightarrow> bool" where
  "names_directory s = (last (split_sep s) = [] \<or> last (split_sep s) = ''.'')"

definition locate_file :: "world \<Rightarrow> string \<Rightarrow> py_error + path \<times> fdata" where
  "locate_file w s =
     (if s = [] then Inl FileNotFoundError
      else (case locate w (Path s) of
         Inl e \<Rightarrow> Inl e
       | Inr q \<Rightarrow>
          (case node_at w q of
             None \<Rightarrow> Inl FileNotFoundError
           | Some Dir \<Rightarrow> Inl IsADirectoryError
           | Some (File x) \<Rightarrow>
               if names_directory s then Inl NotADirectoryError else Inr (q, x))))"

definition os_remove :: "world \<Rightarrow> string \<Rightarrow> (py_error + unit) \<times> world" where
  "os_remove w s =
     (case locate_file w s of
        Inl e \<Rightarrow> (Inl e, w)
      | Inr (q, x) \<Rightarrow>
          (Inr (), w\<lparr>nodes := AList.delete q (nodes w), trace := trace w @ [OsRemove s]\<rparr>))"

section \<open>zipfile\<close>

text \<open>
  \<^verbatim>\<open>ZipFile(path)\<close> opens the file and reads the table of members (the last entry of a
  name counts); the handle stays open until \<^verbatim>\<open>close()\<close>, which does nothing on a handle
  that is closed already. \<^verbatim>\<open>ZipFile.__del__\<close> calls \<^verbatim>\<open>close()\<close>: CPython runs it when the
  last reference to the object goes.
\<close>

record zipfile =
  filename :: string
  fp :: path
  handle :: nat
  NameToInfo :: "(string \<times> string) list"

definition ZipFile :: "world \<Rightarrow> string \<Rightarrow> (py_error + zipfile) \<times> world" where
  "ZipFile w s =
     (case locate_file w s of
        Inl e \<Rightarrow> (Inl e, w)
      | Inr (q, Bytes b) \<Rightarrow> (Inl BadZipFile, w)
      | Inr (q, ZipArchive ms) \<Rightarrow>
          (Inr \<lparr>filename = s, fp = q, handle = handles_made w, NameToInfo = ms\<rparr>,
           w\<lparr>open_zips := (handles_made w, q) # open_zips w,
             handles_made := Suc (handles_made w),
             trace := trace w @ [ZipOpen s]\<rparr>))"

definition is_open :: "world \<Rightarrow> zipfile \<Rightarrow> bool" where
  "is_open w z = (handle z \<in> set (map fst (open_zips w)))"

definition zip_close :: "world \<Rightarrow> zipfile \<Rightarrow> world" where
  "zip_close w z =
     (if is_open w z
      then w\<lparr>open_zips := filter (\<lambda>h. fst h \<noteq> handle z) (open_zips w),
             trace := trace w @ [ZipClose (filename z)]\<rparr>
      else w)"

definition ZipFile_del :: "world \<Rightarrow> zipfile \<Rightarrow> world" where
  "ZipFile_del w z = zip_close w z"

text \<open>\<^verbatim>\<open>os.path.normpath\<close> on the names of a path: \<^verbatim>\<open>..\<close> removes the name before it.\<close>

definition normpath :: "ppath \<Rightarrow> ppath" where
  "normpath p =
     \<lparr>anchor = anchor p,
      names = foldl (\<lambda>acc n.
                 if n \<noteq> ''..'' then acc @ [n]
                 else if acc \<noteq> [] \<and> last acc \<noteq> ''..'' then butlast acc
                 else if acc = [] \<and> anchor p \<noteq> [] then acc
                 else acc @ [n]) [] (names p)\<rparr>"

text \<open>
  \<^verbatim>\<open>os.makedirs(name)\<close>: the missing ancestors first (a \<^verbatim>\<open>FileExistsError\<close> from them is
  passed over), then \<^verbatim>\<open>mkdir(name)\<close>.
\<close>

function makedirs :: "world \<Rightarrow> ppath \<Rightarrow> (py_error + unit) \<times> world" where
  "makedirs w p =
     (if names p \<noteq> [] \<and> \<not> (anchor p = [] \<and> butlast (names p) = [])
          \<and> \<not> os_path_exists w (parent p)
      then (case makedirs w (parent p) of
              (Inr u, w') \<Rightarrow> mkdir_node w' p
            | (Inl FileExistsError, w') \<Rightarrow> mkdir_node w' p
            | (Inl e, w') \<Rightarrow> (Inl e, w'))
      else mkdir_node w p)"
  by pat_completeness auto
termination
  by (relation "measure (\<lambda>(w, p). length (names p))") (auto simp: parent_def)

declare makedirs.simps [simp del]

text \<open>\<^verbatim>\<open>open(targetpath, "wb")\<close> and the copy of the member's bytes into it.\<close>

definition write_file :: "world \<Rightarrow> ppath \<Rightarrow> string \<Rightarrow> (py_error + unit) \<times> world" where
  "write_file w p bytes =
     (case locate w p of
        Inl e \<Rightarrow> (Inl e, w)
      | Inr q \<Rightarrow>
         (case node_at w q of
            Some Dir \<Rightarrow> (Inl IsADirectoryError, w)
          | _ \<Rightarrow> (Inr (), w\<lparr>nodes := AList.update q (File (Bytes bytes)) (nodes w)\<rparr>)))"

text \<open>
  \<^verbatim>\<open>ZipFile.extract(member, path)\<close>: the member is looked up (\<^verbatim>\<open>KeyError\<close>); its name,
  without empty, \<^verbatim>\<open>.\<close> and \<^verbatim>\<open>..\<close> components, is joined to \<open>path\<close> and normalised; the
  directories above the target are made when they are missing; a member whose name
  ends in a slash is a directory, any other is read through the handle (which must be
  open, on a file that still holds the archive) and written to the target.
\<close>

definition arcname :: "string \<Rightarrow> string list" where
  "arcname member = filter (\<lambda>n. n \<noteq> [] \<and> n \<noteq> ''.'' \<and> n \<noteq> ''..'') (split_sep member)"

definition targetpath :: "string \<Rightarrow> string \<Rightarrow> ppath" where
  "targetpath path member =
     normpath \<lparr>anchor = anchor (Path path), names = names (Path path) @ arcname member\<rparr>"

definition extract_member ::
  "world \<Rightarrow> zipfile \<Rightarrow> string \<Rightarrow> string \<Rightarrow> (py_error + unit) \<times> world" where
  "extract_member w z member path =
     (case map_of (rev (NameToInfo z)) member of
        None \<Rightarrow> (Inl (KeyError member), w)
      | Some bytes \<Rightarrow>
         (let t = targetpath path member;
              upperdirs = parent t;
              r = (if \<not> (anchor upperdirs = [] \<and> names upperdirs = [])
                        \<and> \<not> os_path_exists w upperdirs
                   then makedirs w upperdirs else (Inr (), w))
          in case r of
               (Inl e, w1) \<Rightarrow> (Inl e, w1)
             | (Inr u, w1) \<Rightarrow>
                 if member \<noteq> [] \<and> last member = CHR ''/''
                 then (if os_path_isdir w1 t then (Inr (), w1) else mkdir_node w1 t)
                 else if \<not> is_open w1 z
                 then (Inl (ValueError ''Attempt to use ZIP archive that was already closed''), w1)
                 else if node_at w1 (fp z) \<noteq> Some (File (ZipArchive (NameToInfo z)))
                 then (Inl BadZipFile, w1)
                 else write_file w1 t bytes))"

definition zip_extract ::
  "world \<Rightarrow> zipfile \<Rightarrow> string \<Rightarrow> string \<Rightarrow> (py_error + unit) \<times> world" where
  "zip_extract w z member path =
     logged (ZipExtract (filename z) member) (extract_member w z member path)"

section \<open>get\_svgs\_paths\<close>

fun is_alias :: "string \<Rightarrow> alias_entry list \<Rightarrow> bool" where
  "is_alias font_version [] = False"
| "is_alias font_version (a # rest) =
     (if font_version = alias_of a then True else is_alias font_version rest)"

text \<open>
  The inner loop over \<^verbatim>\<open>icon_info["versions"]["font"]\<close>, with the list \<^verbatim>\<open>file_paths\<close> built
  so far; \<open>Inl\<close> is the \<^verbatim>\<open>ValueError\<close> raised for a file that does not exist, or the error
  that \<^verbatim>\<open>path.exists()\<close> raised.
\<close>

fun versions_loop ::
  "world \<Rightarrow> icon \<Rightarrow> ppath \<Rightarrow> alias_entry list \<Rightarrow> string list \<Rightarrow> string list
     \<Rightarrow> (py_error + string list) \<times> world" where
  "versions_loop w icon_info folder_path als [] file_paths = (Inr file_paths, w)"
| "versions_loop w icon_info folder_path als (font_version # rest) file_paths =
     (if is_alias font_version als
      then versions_loop
             (py_print w (''Not exist '' @ name icon_info @ ''-'' @ font_version @ ''.svg''))
             icon_info folder_path als rest file_paths
      else (let file_name = name icon_info @ ''-'' @ font_version @ ''.svg'';
                path = joinpath folder_path file_name
            in case exists w path of
                 Inl e \<Rightarrow> (Inl e, w)
               | Inr True \<Rightarrow>
                   versions_loop w icon_info folder_path als rest (file_paths @ [str path])
               | Inr False \<Rightarrow> (Inl (ValueError (''This path doesn't exist: '' @ str path)), w)))"

definition aliases_or_empty :: "icon \<Rightarrow> alias_entry list" where
  "aliases_or_empty icon_info = (case aliases icon_info of None \<Rightarrow> [] | Some als \<Rightarrow> als)"

fun icons_loop ::
  "world \<Rightarrow> string \<Rightarrow> icon list \<Rightarrow> string list \<Rightarrow> (py_error + string list) \<times> world" where
  "icons_loop w icons_folder_path [] file_paths = (Inr file_paths, w)"
| "icons_loop w icons_folder_path (icon_info # rest) file_paths =
     (let folder_path = joinpath (Path icons_folder_path) (name icon_info)
      in case is_dir w folder_path of
           Inl e \<Rightarrow> (Inl e, w)
         | Inr False \<Rightarrow>
             (Inl (ValueError (''Invalid path. This is not a directory: ''
                                 @ str folder_path @ ''.'')), w)
         | Inr True \<Rightarrow>
             (case versions_loop w icon_info folder_path (aliases_or_empty icon_info)
                     (font (versions icon_info)) file_paths of
                (Inl e, w') \<Rightarrow> (Inl e, w')
              | (Inr file_paths', w') \<Rightarrow> icons_loop w' icons_folder_path rest file_paths'))"

definition get_svgs_paths ::
  "world \<Rightarrow> icon list \<Rightarrow> string \<Rightarrow> (py_error + string list) \<times> world" where
  "get_svgs_paths w new_icons icons_folder_path = icons_loop w icons_folder_path new_icons []"

section \<open>extract\_files\<close>

definition target_files :: "string list" where
  "target_files =
     [''selection.json'', ''fonts/'', ''fonts/devicon.ttf'', ''fonts/devicon.woff'',
      ''fonts/devicon.eot'', ''fonts/devicon.svg'', ''style.css'']"

fun extract_loop ::
  "world \<Rightarrow> zipfile \<Rightarrow> string list \<Rightarrow> string \<Rightarrow> (py_error + unit) \<times> world" where
  "extract_loop w icomoon_zip [] extract_path = (Inr (), w)"
| "extract_loop w icomoon_zip (file # rest) extract_path =
     (case zip_extract w icomoon_zip file extract_path of
        (Inl e, w') \<Rightarrow> (Inl e, w')
      | (Inr u, w') \<Rightarrow> extract_loop w' icomoon_zip rest extract_path)"

text \<open>
  \<^verbatim>\<open>icomoon_zip.close()\<close> is called on one path only: after the extraction, when
  \<^verbatim>\<open>delete\<close> is true. There is no \<^verbatim>\<open>with\<close> block and no \<^verbatim>\<open>finally\<close>. When the function
  returns, its local \<^verbatim>\<open>icomoon_zip\<close> held the last reference to the archive object, and
  CPython frees the object there (\<open>ZipFile_del\<close>). When the function raises, the traceback
  keeps the frame and its locals, and the handle stays as it is.
\<close>

definition extract_files ::
  "world \<Rightarrow> string \<Rightarrow> string \<Rightarrow> bool \<Rightarrow> (py_error + unit) \<times> world" where
  "extract_files w zip_path extract_path delete =
     (case ZipFile (py_print w ''Extracting zipped files...'') zip_path of
        (Inl e, w1) \<Rightarrow> (Inl e, w1)
      | (Inr icomoon_zip, w1) \<Rightarrow>
         (case extract_loop w1 icomoon_zip target_files extract_path of
            (Inl e, w2) \<Rightarrow> (Inl e, w2)
          | (Inr u, w2) \<Rightarrow>
             (let w3 = py_print w2 ''Files extracted''
              in if delete
                 then (case os_remove
                              (zip_close (py_print w3 ''Deleting devicon zip file...'') icomoon_zip)
                              zip_path of
                         (Inl e, w4) \<Rightarrow> (Inl e, w4)
                       | (Inr u', w4) \<Rightarrow> (Inr (), ZipFile_del w4 icomoon_zip))
                 else (Inr (), ZipFile_del w3 icomoon_zip))))"

section \<open>rename\_extracted\_files\<close>




section \<open>create\_screenshot\_folder\<close>

text \<open>
  The \<^verbatim>\<open>try\<close> statement: \<^verbatim>\<open>except FileExistsError\<close> handles that one error and prints;
  any other error of \<^verbatim>\<open>os.mkdir\<close> is pending when the \<^verbatim>\<open>finally\<close> clause runs, and the
  \<^verbatim>\<open>return\<close> in that clause discards it.
\<close>

definition try_mkdir :: "world \<Rightarrow> ppath \<Rightarrow> py_error option \<times> world" where
  "try_mkdir w screenshot_folder =
     (case os_mkdir w screenshot_folder of
        (Inr u, w1) \<Rightarrow> (None, w1)
      | (Inl FileExistsError, w1) \<Rightarrow>
          (None, py_print w1 (str screenshot_folder @ '' already exist. Script will do nothing.''))
      | (Inl e, w1) \<Rightarrow> (Some e, w1))"

definition create_screenshot_folder ::
  "world \<Rightarrow> string \<Rightarrow> string \<Rightarrow> (py_error + string) \<times> world" where
  "create_screenshot_folder w dir screenshot_name =
     (let folder = resolve w (Path dir)
      in case is_dir w folder of
           Inl e \<Rightarrow> (Inl e, w)
         | Inr False \<Rightarrow>
             (Inl (Exception (''This is not a dir: '' @ str folder @ ''. '' @ [CHR 0x0A]
                                @ ''dir must be a valid directory'')), w)
         | Inr True \<Rightarrow>
             (let screenshot_folder = joinpath folder screenshot_name;
                  pending = try_mkdir w screenshot_folder
              in (Inr (str screenshot_folder), snd pending)))"

section \<open>Names used in the statements\<close>

text \<open>
  The folder of an icon and the file of one of its font versions, by the layout
  \<^verbatim>\<open><icons_folder>/<name>/<name>-<version>.svg\<close>. The alias names of a record are the
  \<^verbatim>\<open>alias\<close> fields of its \<^verbatim>\<open>aliases\<close> (none when the key is absent); the wanted versions are
  the font versions that are not among them, in order.
\<close>

definition icon_folder :: "string \<Rightarrow> icon \<Rightarrow> ppath" where
  "icon_folder icons_folder_path icon_info = joinpath (Path icons_folder_path) (name icon_info)"

definition svg_file :: "string \<Rightarrow> icon \<Rightarrow> string \<Rightarrow> ppath" where
  "svg_file icons_folder_path icon_info font_version =
     joinpath (icon_folder icons_folder_path icon_info)
       (name icon_info @ ''-'' @ font_version @ ''.svg'')"

definition alias_names :: "icon \<Rightarrow> string list" where
  "alias_names icon_info = (case aliases icon_info of None \<Rightarrow> [] | Some als \<Rightarrow> map alias_of als)"

definition wanted :: "icon \<Rightarrow> string list" where
  "wanted icon_info = filter (\<lambda>v. v \<notin> set (alias_names icon_info)) (font (versions icon_info))"

definition is_file_at :: "world \<Rightarrow> path \<Rightarrow> bool" where
  "is_file_at w q = (case node_at w q of Some (File x) \<Rightarrow> True | _ \<Rightarrow> False)"

section \<open>Relations between worlds\<close>

text \<open>
  \<open>dirs_kept w w'\<close>: every directory of \<open>w\<close> is a directory of \<open>w'\<close>, so a walk that succeeds
  in \<open>w\<close> succeeds in \<open>w'\<close>. \<open>extends w w'\<close>: moreover every regular file of \<open>w\<close> is a
  regular file of \<open>w'\<close> (with any content).
\<close>

definition dirs_kept :: "world \<Rightarrow> world \<Rightarrow> bool" where
  "dirs_kept w w' \<longleftrightarrow>
     cwd w' = cwd w \<and> (\<forall>q. node_at w q = Some Dir \<longrightarrow> node_at w' q = Some Dir)"

definition extends :: "world \<Rightarrow> world \<Rightarrow> bool" where
  "extends w w' \<longleftrightarrow>
     dirs_kept w w' \<and> (\<forall>q x. node_at w q = Some (File x) \<longrightarrow> (\<exists>y. node_at w' q = Some (File y)))"

section \<open>Example worlds\<close>

text \<open>A folder of icons for the examples: \<^verbatim>\<open>react\<close> has three files, \<^verbatim>\<open>vuejs\<close> has no folder.\<close>

definition icons_world :: world where
  "icons_world =
     \<lparr>nodes = [([''icons''], Dir),
               ([''icons'', ''react''], Dir),
               ([''icons'', ''react'', ''react-original.svg''], File (Bytes ''<svg/>'')),
               ([''icons'', ''react'', ''react-plain.svg''], File (Bytes ''<svg/>'')),
               ([''icons'', ''react'', ''react-v2.svg''], File (Bytes ''<svg/>''))],
      cwd = [], open_zips = [], handles_made = 0, trace = []\<rparr>"

text \<open>A world with the one directory \<^verbatim>\<open>/repo\<close>.\<close>

definition repo_world :: world where
  "repo_world = \<lparr>nodes = [([''repo''], Dir)], cwd = [], open_zips = [], handles_made = 0, trace = []\<rparr>"



text \<open>A world that holds the archive \<^verbatim>\<open>/devicon.zip\<close> with the seven members, and nothing else.\<close>

definition archive_world :: world where
  "archive_world =
     \<lparr>nodes = [([''devicon.zip''],
                File (ZipArchive
                  [(''selection.json'', ''{}''), (''fonts/'', []),
                   (''fonts/devicon.ttf'', ''ttf''), (''fonts/devicon.woff'', ''woff''),
                   (''fonts/devicon.eot'', ''eot''), (''fonts/devicon.svg'', ''svg''),
                   (''style.css'', ''.devicon {}'')]))],
      cwd = [], open_zips = [], handles_made = 0, trace = []\<rparr>"

section \<open>Properties of find\_new\_icons\<close>

lemma special_dot: "CHR ''.'' \<in> set SPECIAL_CHARS"
  by (simp add: SPECIAL_CHARS_def)

lemma special_caret: "CHR ''^'' \<in> set SPECIAL_CHARS"
  by (simp add: SPECIAL_CHARS_def)

lemma dash_not_special: "CHR ''-'' \<notin> set SPECIAL_CHARS"
  by (simp add: SPECIAL_CHARS_def)

lemma re_compile_plain:
  "plain s \<Longrightarrow> re_compile (s @ t) = map_option ((@) (map Literal s)) (re_compile t)"
proof (induction s)
  case Nil
  show ?case by (simp add: option.map_ident)
next
  case (Cons c s)
  from Cons.prems have c: "c \<notin> set SPECIAL_CHARS" and s: "plain s"
    by (simp_all add: plain_def)
  from c have "c \<noteq> CHR ''.''" "c \<noteq> CHR ''^''"
    using special_dot special_caret by auto
  with c Cons.IH [OF s] show ?case
    by (simp add: option.map_comp comp_def)
qed

lemma re_compile_pattern:
  assumes "plain n"
  shows "re_compile (''^'' @ n @ ''-'') = Some (AtBeginning # map Literal n @ [Literal CHR ''-''])"
proof -
  have "re_compile ''-'' = Some [Literal CHR ''-'']"
    using dash_not_special by simp
  then have "re_compile (n @ ''-'') = Some (map Literal n @ [Literal CHR ''-''])"
    using re_compile_plain [OF assms, of "''-''"] by simp
  then show ?thesis by simp
qed

lemma match_here_literals: "match_here (map Literal u) b s = prefix u s"
proof (induction u arbitrary: b s)
  case Nil
  show ?case by simp
next
  case (Cons c u)
  show ?case by (cases s) (auto simp: Cons.IH)
qed

lemma search_from_anchored: "search_from (AtBeginning # p) False s = False"
  by (induction s) simp_all

lemma re_search_anchored: "re_search (AtBeginning # p) s = match_here p True s"
  by (cases s) (simp_all add: re_search_def search_from_anchored)

lemma re_search_plain:
  "re_search (AtBeginning # map Literal n @ [Literal CHR ''-'']) s = prefix (n @ ''-'') s"
proof -
  have "map Literal n @ [Literal CHR ''-''] = map Literal (n @ ''-'')" by simp
  then show ?thesis
    by (simp only: re_search_anchored match_here_literals)
qed

lemma fonts_loop_plain:
  "fonts_loop (AtBeginning # map Literal n @ [Literal CHR ''-'']) fs
     = (\<not> list_ex (\<lambda>f. prefix (n @ ''-'') (prop_name (properties f))) fs)"
  by (induction fs) (simp_all add: re_search_plain)

lemma is_not_in_icomoon_json_plain:
  "plain (name ic) \<Longrightarrow> is_not_in_icomoon_json ic B = Some (\<not> published ic B)"
  by (simp add: is_not_in_icomoon_json_def re_compile_pattern fonts_loop_plain published_def
      del: re_compile.simps append.simps)

lemma new_icons_loop_plain:
  "list_all (\<lambda>ic. plain (name ic)) A \<Longrightarrow>
     new_icons_loop A B acc = Some (acc @ filter (\<lambda>ic. \<not> published ic B) A)"
  by (induction A arbitrary: acc) (simp_all add: is_not_in_icomoon_json_plain)

lemma find_new_icons_plain:
  "list_all (\<lambda>ic. plain (name ic)) A \<Longrightarrow>
     find_new_icons A B = Some (filter (\<lambda>ic. \<not> published ic B) A)"
  by (simp add: find_new_icons_def new_icons_loop_plain)

text \<open>
  C1. The claim: for every pair of manifests, a record of A is in the result of
  \<^verbatim>\<open>find_new_icons\<close> exactly when no entry of B has a name that starts with the record's
  name followed by \<^verbatim>\<open>-\<close>. The code interpolates the name into the pattern without
  \<^verbatim>\<open>re.escape\<close>, so a name with a special character is read as pattern syntax: the
  record named \<^verbatim>\<open>node.js\<close> is left out of the result because of the entry
  \<^verbatim>\<open>nodexjs-plain\<close>, whose name does not start with \<^verbatim>\<open>node.js-\<close>.
\<close>

theorem find_new_icons_unescaped_name:
  "find_new_icons [mk_icon ''node.js'' None [''plain'']] (mk_icomoon [''nodexjs-plain'']) = Some []
   \<and> \<not> published (mk_icon ''node.js'' None [''plain'']) (mk_icomoon [''nodexjs-plain''])"
  by (simp add: find_new_icons_def is_not_in_icomoon_json_def re_search_def published_def
      mk_icon_def mk_icomoon_def SPECIAL_CHARS_def)

text \<open>
  C2, as stated: whenever no name of A equals a name of B, \<^verbatim>\<open>find_new_icons\<close> returns all
  of A. It fails: the names \<^verbatim>\<open>react\<close> and \<^verbatim>\<open>react-original\<close> are different, and the record
  is left out all the same, since the match is a prefix match.
\<close>

theorem find_new_icons_disjoint_names_counterexample:
  "set (map name [mk_icon ''react'' None [''original'']])
     \<inter> set (map (\<lambda>f. prop_name (properties f)) (icons (mk_icomoon [''react-original'']))) = {}
   \<and> find_new_icons [mk_icon ''react'' None [''original'']] (mk_icomoon [''react-original''])
     \<noteq> Some [mk_icon ''react'' None [''original'']]"
  by (simp add: find_new_icons_def is_not_in_icomoon_json_def re_search_def
      mk_icon_def mk_icomoon_def SPECIAL_CHARS_def)

text \<open>
  C2, amended: when every name of A is free of the pattern syntax's special characters
  and no entry of B has a name that starts with a record's name followed by \<^verbatim>\<open>-\<close>,
  \<^verbatim>\<open>find_new_icons\<close> returns all records of A, in A's order.
\<close>

theorem find_new_icons_unpublished_all:
  assumes "list_all (\<lambda>ic. plain (name ic)) A"
    and "list_all (\<lambda>ic. \<not> published ic B) A"
  shows "find_new_icons A B = Some A"
proof -
  from assms(2) have "filter (\<lambda>ic. \<not> published ic B) A = A"
    by (simp add: list_all_iff)
  with find_new_icons_plain [OF assms(1), of B] show ?thesis by simp
qed

theorem find_new_icons_unpublished_all_witness:
  "list_all (\<lambda>ic. plain (name ic)) [mk_icon ''react'' None [''original''], mk_icon ''vuejs'' None []]
   \<and> list_all (\<lambda>ic. \<not> published ic (mk_icomoon [''angularjs-plain'', ''react'']))
        [mk_icon ''react'' None [''original''], mk_icon ''vuejs'' None []]
   \<and> find_new_icons [mk_icon ''react'' None [''original''], mk_icon ''vuejs'' None []]
        (mk_icomoon [''angularjs-plain'', ''react''])
     = Some [mk_icon ''react'' None [''original''], mk_icon ''vuejs'' None []]"
proof -
  have p: "list_all (\<lambda>ic. plain (name ic))
             [mk_icon ''react'' None [''original''], mk_icon ''vuejs'' None []]"
    by (simp add: plain_def mk_icon_def SPECIAL_CHARS_def)
  have u: "list_all (\<lambda>ic. \<not> published ic (mk_icomoon [''angularjs-plain'', ''react'']))
             [mk_icon ''react'' None [''original''], mk_icon ''vuejs'' None []]"
    by (simp add: published_def mk_icon_def mk_icomoon_def)
  from p u find_new_icons_unpublished_all [OF p u] show ?thesis by simp
qed

section \<open>Reading the file system\<close>

text \<open>What is read from the file system depends on the nodes and the working directory only.\<close>

lemma node_at_same: "nodes w = nodes w' \<Longrightarrow> node_at w q = node_at w' q"
  by (simp add: node_at_def)

lemma walk_same: "nodes w = nodes w' \<Longrightarrow> walk w cur ns = walk w' cur ns"
  by (induction ns arbitrary: cur)
    (simp_all add: node_at_same [of w w'] split: option.splits node.splits)

lemma locate_same: "nodes w = nodes w' \<Longrightarrow> cwd w = cwd w' \<Longrightarrow> locate w p = locate w' p"
  by (simp add: locate_def walk_same [of w w'])

lemma os_stat_same: "nodes w = nodes w' \<Longrightarrow> cwd w = cwd w' \<Longrightarrow> os_stat w p = os_stat w' p"
  by (simp add: os_stat_def locate_same [of w w'] node_at_same [of w w'] split: sum.splits)

lemma exists_same: "nodes w = nodes w' \<Longrightarrow> cwd w = cwd w' \<Longrightarrow> exists w p = exists w' p"
  by (simp add: exists_def os_stat_same [of w w'])

lemma is_dir_same: "nodes w = nodes w' \<Longrightarrow> cwd w = cwd w' \<Longrightarrow> is_dir w p = is_dir w' p"
  by (simp add: is_dir_def os_stat_same [of w w'])

lemma py_print_fs [simp]: "nodes (py_print w m) = nodes w" "cwd (py_print w m) = cwd w"
  "open_zips (py_print w m) = open_zips w" "handles_made (py_print w m) = handles_made w"
  by (simp_all add: py_print_def)

lemma exists_py_print [simp]: "exists (py_print w m) p = exists w p"
  by (rule exists_same) simp_all

lemma is_dir_py_print [simp]: "is_dir (py_print w m) p = is_dir w p"
  by (rule is_dir_same) simp_all

text \<open>\<^verbatim>\<open>is_alias\<close> finds a font version exactly when it is the \<^verbatim>\<open>alias\<close> of some entry.\<close>

lemma is_alias_iff: "is_alias v als \<longleftrightarrow> v \<in> set (map alias_of als)"
  by (induction als) auto

lemma aliases_or_empty_names: "map alias_of (aliases_or_empty ic) = alias_names ic"
  by (simp add: aliases_or_empty_def alias_names_def split: option.splits)

lemma is_alias_listed: "is_alias v (aliases_or_empty ic) \<longleftrightarrow> v \<in> set (alias_names ic)"
  by (simp add: is_alias_iff aliases_or_empty_names)

lemma versions_loop_fs:
  "nodes (snd (versions_loop w ic fd als vs acc)) = nodes w
   \<and> cwd (snd (versions_loop w ic fd als vs acc)) = cwd w"
  by (induction vs arbitrary: w acc) (simp_all add: Let_def split: sum.splits bool.splits)

lemma icons_loop_fs:
  "nodes (snd (icons_loop w f ics acc)) = nodes w \<and> cwd (snd (icons_loop w f ics acc)) = cwd w"
proof (induction ics arbitrary: w acc)
  case Nil
  show ?case by simp
next
  case (Cons ic ics)
  show ?case
    using versions_loop_fs [of w ic "joinpath (Path f) (name ic)" "aliases_or_empty ic"
        "font (versions ic)" acc]
    by (auto simp: Let_def Cons.IH split: prod.splits sum.splits bool.splits)
qed

lemma versions_loop_Inr:
  "versions_loop w ic fd als vs acc = (Inr ps, w') \<Longrightarrow>
     ps = acc @ map (\<lambda>v. str (joinpath fd (name ic @ ''-'' @ v @ ''.svg'')))
                  (filter (\<lambda>v. v \<notin> set (map alias_of als)) vs)"
proof (induction vs arbitrary: w acc)
  case Nil
  then show ?case by simp
next
  case (Cons v vs)
  show ?case
  proof (cases "is_alias v als")
    case True
    with Cons.prems Cons.IH [of "py_print w (''Not exist '' @ name ic @ ''-'' @ v @ ''.svg'')" acc]
    show ?thesis by (simp add: is_alias_iff)
  next
    case False
    with Cons.prems
    have "versions_loop w ic fd als vs
            (acc @ [str (joinpath fd (name ic @ ''-'' @ v @ ''.svg''))]) = (Inr ps, w')"
      by (simp add: Let_def split: sum.splits bool.splits)
    from Cons.IH [OF this] False show ?thesis by (simp add: is_alias_iff)
  qed
qed

lemma icons_loop_Inr:
  "icons_loop w f ics acc = (Inr ps, w') \<Longrightarrow>
     ps = acc @ concat (map (\<lambda>ic. map (\<lambda>v. str (svg_file f ic v)) (wanted ic)) ics)"
proof (induction ics arbitrary: w acc)
  case Nil
  then show ?case by simp
next
  case (Cons ic ics)
  from Cons.prems obtain qs w1 where
    v: "versions_loop w ic (joinpath (Path f) (name ic)) (aliases_or_empty ic)
          (font (versions ic)) acc = (Inr qs, w1)"
    and r: "icons_loop w1 f ics qs = (Inr ps, w')"
    by (auto simp: Let_def split: if_splits prod.splits sum.splits bool.splits)
  from versions_loop_Inr [OF v] Cons.IH [OF r] show ?case
    by (simp add: svg_file_def icon_folder_def wanted_def aliases_or_empty_names)
qed

section \<open>Properties of get\_svgs\_paths\<close>

lemma versions_loop_append:
  "versions_loop w ic fd als (xs @ ys) acc =
     (case versions_loop w ic fd als xs acc of
        (Inl e, w') \<Rightarrow> (Inl e, w')
      | (Inr ps, w') \<Rightarrow> versions_loop w' ic fd als ys ps)"
  by (induction xs arbitrary: w acc) (simp_all add: Let_def split: sum.splits bool.splits)

lemma icons_loop_append:
  "icons_loop w f (xs @ ys) acc =
     (case icons_loop w f xs acc of
        (Inl e, w') \<Rightarrow> (Inl e, w')
      | (Inr ps, w') \<Rightarrow> icons_loop w' f ys ps)"
  by (induction xs arbitrary: w acc)
    (simp_all add: Let_def split: prod.splits sum.splits bool.splits)

lemma versions_loop_ok:
  "list_all (\<lambda>u. is_alias u als
               \<or> exists w (joinpath fd (name ic @ ''-'' @ u @ ''.svg'')) = Inr True) vs
   \<Longrightarrow> \<exists>ps. fst (versions_loop w ic fd als vs acc) = Inr ps"
proof (induction vs arbitrary: w acc)
  case Nil
  show ?case by simp
next
  case (Cons v vs)
  show ?case
  proof (cases "is_alias v als")
    case True
    from Cons.prems
    have "list_all (\<lambda>u. is_alias u als \<or>
             exists (py_print w (''Not exist '' @ name ic @ ''-'' @ v @ ''.svg''))
               (joinpath fd (name ic @ ''-'' @ u @ ''.svg'')) = Inr True) vs"
      by simp
    from Cons.IH [OF this] True show ?thesis by simp
  next
    case False
    with Cons.prems Cons.IH [of w] show ?thesis by (simp add: Let_def)
  qed
qed

text \<open>The loop stops at the first version that is no alias and whose file is not found.\<close>

lemma versions_loop_prefix:
  assumes "list_all (\<lambda>u. is_alias u als
                       \<or> exists w (joinpath fd (name ic @ ''-'' @ u @ ''.svg'')) = Inr True) vs"
  shows "\<exists>ps w1. versions_loop w ic fd als vs acc = (Inr ps, w1)
           \<and> exists w1 (joinpath fd (name ic @ ''-'' @ v @ ''.svg''))
               = exists w (joinpath fd (name ic @ ''-'' @ v @ ''.svg''))"
proof -
  from versions_loop_ok [OF assms, of acc] obtain ps w1
    where p: "versions_loop w ic fd als vs acc = (Inr ps, w1)"
    by (metis prod.collapse)
  from versions_loop_fs [of w ic fd als vs acc] p
  have "nodes w1 = nodes w" "cwd w1 = cwd w" by simp_all
  then have "exists w1 (joinpath fd (name ic @ ''-'' @ v @ ''.svg''))
               = exists w (joinpath fd (name ic @ ''-'' @ v @ ''.svg''))"
    by (rule exists_same)
  with p show ?thesis by blast
qed

lemma versions_loop_missing:
  assumes "list_all (\<lambda>u. is_alias u als
                       \<or> exists w (joinpath fd (name ic @ ''-'' @ u @ ''.svg'')) = Inr True) vs"
    and "\<not> is_alias v als"
    and "exists w (joinpath fd (name ic @ ''-'' @ v @ ''.svg'')) = Inr False"
  shows "fst (versions_loop w ic fd als (vs @ v # vs') acc)
           = Inl (ValueError (''This path doesn't exist: ''
                                @ str (joinpath fd (name ic @ ''-'' @ v @ ''.svg''))))"
  using versions_loop_prefix [OF assms(1), of acc v] assms(2,3)
  by (auto simp: versions_loop_append Let_def)

lemma versions_loop_error:
  assumes "list_all (\<lambda>u. is_alias u als
                       \<or> exists w (joinpath fd (name ic @ ''-'' @ u @ ''.svg'')) = Inr True) vs"
    and "\<not> is_alias v als"
    and "exists w (joinpath fd (name ic @ ''-'' @ v @ ''.svg'')) = Inl e"
  shows "fst (versions_loop w ic fd als (vs @ v # vs') acc) = Inl e"
  using versions_loop_prefix [OF assms(1), of acc v] assms(2,3)
  by (auto simp: versions_loop_append Let_def)

text \<open>
  C7, as stated: \<^verbatim>\<open>get_svgs_paths\<close> raises the error for the invalid directory whenever an
  icon's subfolder does not exist. It fails: for an icon whose name is longer than
  \<open>NAME_MAX\<close> there is no such subfolder, and \<^verbatim>\<open>folder_path.is_dir()\<close> itself raises
  \<^verbatim>\<open>OSError\<close> (\<^verbatim>\<open>ENAMETOOLONG\<close>), which leaves the function in place of the \<^verbatim>\<open>ValueError\<close>.
\<close>

theorem get_svgs_paths_long_name_counterexample:
  "node_at icons_world [''icons'', replicate 256 CHR ''a''] = None
   \<and> fst (get_svgs_paths icons_world [mk_icon (replicate 256 CHR ''a'') None [''plain'']] ''/icons'')
       = Inl (OSError ''ENAMETOOLONG'')"
  by code_simp

text \<open>
  C7, amended. For icons \<open>pre\<close> that are resolved without an error and the icon \<open>ic\<close> after
  them, \<^verbatim>\<open>get_svgs_paths\<close> stops with an error and returns no list: when \<^verbatim>\<open>is_dir()\<close>
  answers \<open>False\<close> for the folder of \<open>ic\<close> (it is missing or no directory), the error is the
  \<^verbatim>\<open>ValueError\<close> for the invalid directory; when the folder is a directory and \<open>v\<close> is the
  first font version of \<open>ic\<close> that is not an alias and for whose file \<^verbatim>\<open>exists()\<close> answers
  \<open>False\<close>, the error is the \<^verbatim>\<open>ValueError\<close> for the missing file; and when \<^verbatim>\<open>is_dir()\<close> or
  \<^verbatim>\<open>exists()\<close> itself raises there, that error leaves the function. (The code has one
  error class, \<^verbatim>\<open>ValueError\<close>, for the two it raises; the message tells them apart.)
\<close>

theorem get_svgs_paths_raises:
  assumes "fst (get_svgs_paths w pre f) = Inr ps"
  shows "(is_dir w (icon_folder f ic) = Inr False \<longrightarrow>
            fst (get_svgs_paths w (pre @ ic # post) f)
              = Inl (ValueError (''Invalid path. This is not a directory: ''
                                   @ str (icon_folder f ic) @ ''.'')))
       \<and> (is_dir w (icon_folder f ic) = Inl e \<longrightarrow>
            fst (get_svgs_paths w (pre @ ic # post) f) = Inl e)
       \<and> (is_dir w (icon_folder f ic) = Inr True \<and> font (versions ic) = vs @ v # vs'
            \<and> list_all (\<lambda>u. u \<in> set (alias_names ic) \<or> exists w (svg_file f ic u) = Inr True) vs
            \<and> v \<notin> set (alias_names ic) \<and> exists w (svg_file f ic v) = Inr False \<longrightarrow>
            fst (get_svgs_paths w (pre @ ic # post) f)
              = Inl (ValueError (''This path doesn't exist: '' @ str (svg_file f ic v))))
       \<and> (is_dir w (icon_folder f ic) = Inr True \<and> font (versions ic) = vs @ v # vs'
            \<and> list_all (\<lambda>u. u \<in> set (alias_names ic) \<or> exists w (svg_file f ic u) = Inr True) vs
            \<and> v \<notin> set (alias_names ic) \<and> exists w (svg_file f ic v) = Inl e \<longrightarrow>
            fst (get_svgs_paths w (pre @ ic # post) f) = Inl e)"
proof -
  from assms obtain w1 where p: "icons_loop w f pre [] = (Inr ps, w1)"
    by (metis get_svgs_paths_def prod.collapse)
  from icons_loop_fs [of w f pre "[]"] p
  have fs: "nodes w1 = nodes w" "cwd w1 = cwd w" by simp_all
  have d: "is_dir w1 (icon_folder f ic) = is_dir w (icon_folder f ic)"
    using fs by (rule is_dir_same)
  have x: "\<And>q. exists w1 q = exists w q"
    using fs by (rule exists_same)
  have r: "get_svgs_paths w (pre @ ic # post) f = icons_loop w1 f (ic # post) ps"
    by (simp add: get_svgs_paths_def icons_loop_append p)
  have c1: "fst (icons_loop w1 f (ic # post) ps)
            = Inl (ValueError (''Invalid path. This is not a directory: ''
                                 @ str (icon_folder f ic) @ ''.''))"
    if "is_dir w (icon_folder f ic) = Inr False"
    using that d by (simp add: icon_folder_def Let_def)
  have c2: "fst (icons_loop w1 f (ic # post) ps) = Inl e"
    if "is_dir w (icon_folder f ic) = Inl e"
    using that d by (simp add: icon_folder_def Let_def)
  have l: "list_all (\<lambda>u. is_alias u (aliases_or_empty ic) \<or>
        exists w1 (joinpath (icon_folder f ic) (name ic @ ''-'' @ u @ ''.svg'')) = Inr True) vs"
    if "list_all (\<lambda>u. u \<in> set (alias_names ic) \<or> exists w (svg_file f ic u) = Inr True) vs"
    using that by (simp add: x svg_file_def is_alias_listed)
  have c3: "fst (icons_loop w1 f (ic # post) ps)
          = Inl (ValueError (''This path doesn't exist: '' @ str (svg_file f ic v)))"
    if a: "is_dir w (icon_folder f ic) = Inr True" "font (versions ic) = vs @ v # vs'"
      "list_all (\<lambda>u. u \<in> set (alias_names ic) \<or> exists w (svg_file f ic u) = Inr True) vs"
      "v \<notin> set (alias_names ic)" "exists w (svg_file f ic v) = Inr False"
  proof -
    from a(4) have n: "\<not> is_alias v (aliases_or_empty ic)" by (simp add: is_alias_listed)
    from a(5) have m: "exists w1 (joinpath (icon_folder f ic) (name ic @ ''-'' @ v @ ''.svg''))
                         = Inr False"
      by (simp add: x svg_file_def)
    from versions_loop_missing [OF l [OF a(3)] n m, of vs' ps]
    have "fst (versions_loop w1 ic (icon_folder f ic) (aliases_or_empty ic) (font (versions ic)) ps)
            = Inl (ValueError (''This path doesn't exist: '' @ str (svg_file f ic v)))"
      by (simp add: a(2) svg_file_def)
    with a(1) d show ?thesis
      by (auto simp: icon_folder_def Let_def split: prod.splits sum.splits)
  qed
  have c4: "fst (icons_loop w1 f (ic # post) ps) = Inl e"
    if a: "is_dir w (icon_folder f ic) = Inr True" "font (versions ic) = vs @ v # vs'"
      "list_all (\<lambda>u. u \<in> set (alias_names ic) \<or> exists w (svg_file f ic u) = Inr True) vs"
      "v \<notin> set (alias_names ic)" "exists w (svg_file f ic v) = Inl e"
  proof -
    from a(4) have n: "\<not> is_alias v (aliases_or_empty ic)" by (simp add: is_alias_listed)
    from a(5) have m: "exists w1 (joinpath (icon_folder f ic) (name ic @ ''-'' @ v @ ''.svg''))
                         = Inl e"
      by (simp add: x svg_file_def)
    from versions_loop_error [OF l [OF a(3)] n m, of vs' ps]
    have "fst (versions_loop w1 ic (icon_folder f ic) (aliases_or_empty ic) (font (versions ic)) ps)
            = Inl e"
      by (simp add: a(2))
    with a(1) d show ?thesis
      by (auto simp: icon_folder_def Let_def split: prod.splits sum.splits)
  qed
  from c1 c2 c3 c4 show ?thesis
    by (simp only: r) blast
qed

theorem get_svgs_paths_raises_witness:
  "fst (get_svgs_paths icons_world [mk_icon ''react'' None [''original'']] ''/icons'')
     = Inr [''/icons/react/react-original.svg'']
   \<and> is_dir icons_world (icon_folder ''/icons'' (mk_icon ''vuejs'' None [''plain''])) = Inr False
   \<and> fst (get_svgs_paths icons_world
            ([mk_icon ''react'' None [''original'']] @ mk_icon ''vuejs'' None [''plain''] # []) ''/icons'')
       = Inl (ValueError ''Invalid path. This is not a directory: /icons/vuejs.'')
   \<and> is_dir icons_world (icon_folder ''/icons'' (mk_icon (replicate 256 CHR ''a'') None [''plain'']))
       = Inl (OSError ''ENAMETOOLONG'')
   \<and> fst (get_svgs_paths icons_world
            ([mk_icon ''react'' None [''original'']]
               @ mk_icon (replicate 256 CHR ''a'') None [''plain''] # []) ''/icons'')
       = Inl (OSError ''ENAMETOOLONG'')
   \<and> is_dir icons_world (icon_folder ''/icons'' (mk_icon ''react'' None [''original'', ''line'', ''plain'']))
       = Inr True
   \<and> list_all (\<lambda>u. u \<in> set (alias_names (mk_icon ''react'' None [''original'', ''line'', ''plain'']))
                   \<or> exists icons_world
                        (svg_file ''/icons'' (mk_icon ''react'' None [''original'', ''line'', ''plain'']) u)
                      = Inr True)
        [''original'']
   \<and> ''line'' \<notin> set (alias_names (mk_icon ''react'' None [''original'', ''line'', ''plain'']))
   \<and> exists icons_world
        (svg_file ''/icons'' (mk_icon ''react'' None [''original'', ''line'', ''plain'']) ''line'')
       = Inr False
   \<and> fst (get_svgs_paths icons_world
            ([mk_icon ''react'' None [''original'']]
               @ mk_icon ''react'' None [''original'', ''line'', ''plain''] # []) ''/icons'')
       = Inl (ValueError ''This path doesn't exist: /icons/react/react-line.svg'')
   \<and> is_dir icons_world
        (icon_folder ''/icons'' (mk_icon ''react'' None [''original'', replicate 256 CHR ''a'']))
       = Inr True
   \<and> exists icons_world
        (svg_file ''/icons'' (mk_icon ''react'' None [''original'', replicate 256 CHR ''a''])
           (replicate 256 CHR ''a''))
       = Inl (OSError ''ENAMETOOLONG'')
   \<and> fst (get_svgs_paths icons_world
            ([mk_icon ''react'' None [''original'']]
               @ mk_icon ''react'' None [''original'', replicate 256 CHR ''a''] # []) ''/icons'')
       = Inl (OSError ''ENAMETOOLONG'')"
proof -
  let ?pre = "[mk_icon ''react'' None [''original'']]"
  let ?bad = "mk_icon ''vuejs'' None [''plain'']"
  let ?long = "mk_icon (replicate 256 CHR ''a'') None [''plain'']"
  let ?ic = "mk_icon ''react'' None [''original'', ''line'', ''plain'']"
  let ?lv = "mk_icon ''react'' None [''original'', replicate 256 CHR ''a'']"
  have p: "fst (get_svgs_paths icons_world ?pre ''/icons'') = Inr [''/icons/react/react-original.svg'']"
    by code_simp
  have nd: "is_dir icons_world (icon_folder ''/icons'' ?bad) = Inr False"
    by code_simp
  have ld: "is_dir icons_world (icon_folder ''/icons'' ?long) = Inl (OSError ''ENAMETOOLONG'')"
    by code_simp
  have d: "is_dir icons_world (icon_folder ''/icons'' ?ic) = Inr True"
    by code_simp
  have f: "font (versions ?ic) = [''original''] @ ''line'' # [''plain'']"
    by (simp add: mk_icon_def)
  have l: "list_all (\<lambda>u. u \<in> set (alias_names ?ic)
                        \<or> exists icons_world (svg_file ''/icons'' ?ic u) = Inr True) [''original'']"
    by code_simp
  have na: "''line'' \<notin> set (alias_names ?ic)"
    by code_simp
  have ne: "exists icons_world (svg_file ''/icons'' ?ic ''line'') = Inr False"
    by code_simp
  have d': "is_dir icons_world (icon_folder ''/icons'' ?lv) = Inr True"
    by code_simp
  have f': "font (versions ?lv) = [''original''] @ replicate 256 CHR ''a'' # []"
    by (simp add: mk_icon_def)
  have l': "list_all (\<lambda>u. u \<in> set (alias_names ?lv)
                        \<or> exists icons_world (svg_file ''/icons'' ?lv u) = Inr True) [''original'']"
    by code_simp
  have na': "replicate 256 CHR ''a'' \<notin> set (alias_names ?lv)"
    by code_simp
  have le: "exists icons_world (svg_file ''/icons'' ?lv (replicate 256 CHR ''a''))
              = Inl (OSError ''ENAMETOOLONG'')"
    by code_simp
  have s1: "str (icon_folder ''/icons'' ?bad) = ''/icons/vuejs''"
    by code_simp
  have s2: "str (svg_file ''/icons'' ?ic ''line'') = ''/icons/react/react-line.svg''"
    by code_simp
  have a: "fst (get_svgs_paths icons_world (?pre @ ?bad # []) ''/icons'')
       = Inl (ValueError ''Invalid path. This is not a directory: /icons/vuejs.'')"
  proof -
    from get_svgs_paths_raises [OF p, where ic = ?bad and post = "[]"] nd
    have "fst (get_svgs_paths icons_world (?pre @ ?bad # []) ''/icons'')
            = Inl (ValueError (''Invalid path. This is not a directory: ''
                                 @ str (icon_folder ''/icons'' ?bad) @ ''.''))"
      by blast
    then show ?thesis unfolding s1 by simp
  qed
  have a': "fst (get_svgs_paths icons_world (?pre @ ?long # []) ''/icons'')
       = Inl (OSError ''ENAMETOOLONG'')"
    using get_svgs_paths_raises
      [OF p, where ic = ?long and post = "[]" and e = "OSError ''ENAMETOOLONG''"] ld by blast
  have b: "fst (get_svgs_paths icons_world (?pre @ ?ic # []) ''/icons'')
       = Inl (ValueError ''This path doesn't exist: /icons/react/react-line.svg'')"
  proof -
    from get_svgs_paths_raises
      [OF p, where ic = ?ic and post = "[]" and vs = "[''original'']" and v = "''line''"
         and vs' = "[''plain'']"] d f l na ne
    have "fst (get_svgs_paths icons_world (?pre @ ?ic # []) ''/icons'')
            = Inl (ValueError (''This path doesn't exist: '' @ str (svg_file ''/icons'' ?ic ''line'')))"
      by blast
    then show ?thesis unfolding s2 by simp
  qed
  have b': "fst (get_svgs_paths icons_world (?pre @ ?lv # []) ''/icons'')
       = Inl (OSError ''ENAMETOOLONG'')"
    using get_svgs_paths_raises
      [OF p, where ic = ?lv and post = "[]" and e = "OSError ''ENAMETOOLONG''"
         and vs = "[''original'']" and v = "replicate 256 CHR ''a''" and vs' = "[]"]
      d' f' l' na' le
    by blast
  from p nd a ld a' d l na ne b d' le b' show ?thesis by simp
qed

text \<open>
  C9. Whatever is on disk, the list \<^verbatim>\<open>get_svgs_paths\<close> returns holds the paths of the font
  versions that are not the \<^verbatim>\<open>alias\<close> of any entry of the record's \<^verbatim>\<open>aliases\<close>, and of no
  other: a version listed as an alias, at any place of the list, is skipped before its
  file is looked at, also when that file exists.
\<close>

theorem get_svgs_paths_skips_aliases:
  assumes "get_svgs_paths w new_icons f = (Inr file_paths, w')"
  shows "file_paths = concat (map (\<lambda>ic. map (\<lambda>v. str (svg_file f ic v)) (wanted ic)) new_icons)"
  using icons_loop_Inr [of w f new_icons "[]" file_paths w'] assms
  by (simp add: get_svgs_paths_def)

theorem get_svgs_paths_skips_aliases_witness:
  "exists icons_world
     (svg_file ''/icons''
        (mk_icon ''react'' (Some [\<lparr>alias_of = ''line''\<rparr>, \<lparr>alias_of = ''plain''\<rparr>])
           [''original'', ''plain'']) ''plain'') = Inr True
   \<and> get_svgs_paths icons_world
        [mk_icon ''react'' (Some [\<lparr>alias_of = ''line''\<rparr>, \<lparr>alias_of = ''plain''\<rparr>])
           [''original'', ''plain'']] ''/icons''
       = (Inr [''/icons/react/react-original.svg''], py_print icons_world ''Not exist react-plain.svg'')
   \<and> [''/icons/react/react-original.svg'']
       = concat (map (\<lambda>ic. map (\<lambda>v. str (svg_file ''/icons'' ic v)) (wanted ic))
           [mk_icon ''react'' (Some [\<lparr>alias_of = ''line''\<rparr>, \<lparr>alias_of = ''plain''\<rparr>])
              [''original'', ''plain'']])"
proof -
  let ?ic = "mk_icon ''react'' (Some [\<lparr>alias_of = ''line''\<rparr>, \<lparr>alias_of = ''plain''\<rparr>])
               [''original'', ''plain'']"
  have x: "exists icons_world (svg_file ''/icons'' ?ic ''plain'') = Inr True"
    by code_simp
  have r: "get_svgs_paths icons_world [?ic] ''/icons''
       = (Inr [''/icons/react/react-original.svg''], py_print icons_world ''Not exist react-plain.svg'')"
    by code_simp
  from get_svgs_paths_skips_aliases [OF r] x r show ?thesis by simp
qed

text \<open>
  C6. For the record with the aliases \<^verbatim>\<open>[{alias: "v1"}]\<close> and the font versions
  \<^verbatim>\<open>["v1", "v2"]\<close>, in an existing folder where the file of \<^verbatim>\<open>v2\<close> exists and the file of
  \<^verbatim>\<open>v1\<close> does not, \<^verbatim>\<open>get_svgs_paths\<close> raises nothing and returns exactly the path of \<^verbatim>\<open>v2\<close>.
\<close>

theorem get_svgs_paths_aliased_v1:
  assumes "is_dir w (icon_folder f (mk_icon n (Some [\<lparr>alias_of = ''v1''\<rparr>]) [''v1'', ''v2''])) = Inr True"
    and "exists w (svg_file f (mk_icon n (Some [\<lparr>alias_of = ''v1''\<rparr>]) [''v1'', ''v2'']) ''v2'')
           = Inr True"
    and "exists w (svg_file f (mk_icon n (Some [\<lparr>alias_of = ''v1''\<rparr>]) [''v1'', ''v2'']) ''v1'')
           \<noteq> Inr True"
  shows "fst (get_svgs_paths w [mk_icon n (Some [\<lparr>alias_of = ''v1''\<rparr>]) [''v1'', ''v2'']] f)
           = Inr [str (svg_file f (mk_icon n (Some [\<lparr>alias_of = ''v1''\<rparr>]) [''v1'', ''v2'']) ''v2'')]"
  using assms
  by (simp add: get_svgs_paths_def icon_folder_def svg_file_def mk_icon_def aliases_or_empty_def
      Let_def)

theorem get_svgs_paths_aliased_v1_witness:
  "is_dir icons_world (icon_folder ''/icons'' (mk_icon ''react'' (Some [\<lparr>alias_of = ''v1''\<rparr>]) [''v1'', ''v2'']))
     = Inr True
   \<and> exists icons_world (svg_file ''/icons'' (mk_icon ''react'' (Some [\<lparr>alias_of = ''v1''\<rparr>]) [''v1'', ''v2'']) ''v2'')
     = Inr True
   \<and> exists icons_world (svg_file ''/icons'' (mk_icon ''react'' (Some [\<lparr>alias_of = ''v1''\<rparr>]) [''v1'', ''v2'']) ''v1'')
     \<noteq> Inr True
   \<and> fst (get_svgs_paths icons_world [mk_icon ''react'' (Some [\<lparr>alias_of = ''v1''\<rparr>]) [''v1'', ''v2'']] ''/icons'')
       = Inr [''/icons/react/react-v2.svg'']"
proof -
  have d: "is_dir icons_world (icon_folder ''/icons'' (mk_icon ''react'' (Some [\<lparr>alias_of = ''v1''\<rparr>]) [''v1'', ''v2'']))
             = Inr True"
    by code_simp
  have e2: "exists icons_world (svg_file ''/icons'' (mk_icon ''react'' (Some [\<lparr>alias_of = ''v1''\<rparr>]) [''v1'', ''v2'']) ''v2'')
              = Inr True"
    by code_simp
  have e1: "exists icons_world (svg_file ''/icons'' (mk_icon ''react'' (Some [\<lparr>alias_of = ''v1''\<rparr>]) [''v1'', ''v2'']) ''v1'')
              \<noteq> Inr True"
    by code_simp
  have s: "str (svg_file ''/icons'' (mk_icon ''react'' (Some [\<lparr>alias_of = ''v1''\<rparr>]) [''v1'', ''v2'']) ''v2'')
             = ''/icons/react/react-v2.svg''"
    by code_simp
  from get_svgs_paths_aliased_v1 [OF d e2 e1] d e2 e1 s show ?thesis by simp
qed

section \<open>Walks in a world that has grown\<close>

lemma dirs_kept_refl [simp]: "dirs_kept w w"
  by (simp add: dirs_kept_def)

lemma dirs_kept_trans: "dirs_kept w w' \<Longrightarrow> dirs_kept w' w'' \<Longrightarrow> dirs_kept w w''"
  by (simp add: dirs_kept_def)

lemma dirs_kept_same: "nodes w' = nodes w \<Longrightarrow> cwd w' = cwd w \<Longrightarrow> dirs_kept w w'"
  by (simp add: dirs_kept_def node_at_def)

lemma extends_refl [simp]: "extends w w"
  by (simp add: extends_def)

lemma extends_trans: "extends w w' \<Longrightarrow> extends w' w'' \<Longrightarrow> extends w w''"
  unfolding extends_def by (meson dirs_kept_trans)

lemma extends_same: "nodes w' = nodes w \<Longrightarrow> cwd w' = cwd w \<Longrightarrow> extends w w'"
  by (simp add: extends_def dirs_kept_same node_at_def)

lemma walk_dirs_kept:
  "dirs_kept w w' \<Longrightarrow> walk w cur ns = Inr q \<Longrightarrow> walk w' cur ns = Inr q"
proof (induction ns arbitrary: cur)
  case Nil
  then show ?case by simp
next
  case (Cons n ns)
  from Cons.prems(2) have d: "node_at w cur = Some Dir"
    by (simp split: option.splits node.splits)
  with Cons.prems(1) have d': "node_at w' cur = Some Dir"
    by (simp add: dirs_kept_def)
  from Cons.prems(2) d have s: "\<not> NAME_MAX < fs_length n"
    by (simp split: if_splits)
  from Cons.prems(2) d s
  have "walk w (if n = ''..'' then butlast cur else cur @ [n]) ns = Inr q" by simp
  from Cons.IH [OF Cons.prems(1) this] d' s show ?case by simp
qed

lemma locate_dirs_kept: "dirs_kept w w' \<Longrightarrow> locate w p = Inr q \<Longrightarrow> locate w' p = Inr q"
  using walk_dirs_kept [of w w'] by (auto simp: locate_def dirs_kept_def)



lemma exists_iff: "exists w p = Inr True \<longleftrightarrow> (\<exists>n. os_stat w p = Inr n)"
  by (auto simp: exists_def split: sum.splits)


lemma os_path_isdir_iff: "os_path_isdir w p \<longleftrightarrow> os_stat w p = Inr Dir"
  by (auto simp: os_path_isdir_def split: sum.splits node.splits)

lemma os_path_exists_iff: "os_path_exists w p \<longleftrightarrow> (\<exists>n. os_stat w p = Inr n)"
  by (auto simp: os_path_exists_def split: sum.splits)



lemma node_at_update:
  "q \<noteq> [] \<Longrightarrow> node_at (w\<lparr>nodes := AList.update q n (nodes w)\<rparr>) p = (if p = q then Some n else node_at w p)"
  by (simp add: node_at_def update_conv')

lemma node_at_delete:
  "q \<noteq> [] \<Longrightarrow> node_at (w\<lparr>nodes := AList.delete q (nodes w)\<rparr>) p = (if p = q then None else node_at w p)"
  by (simp add: node_at_def delete_conv')

lemma node_at_root [simp]: "node_at w [] = Some Dir"
  by (simp add: node_at_def)

lemma mkdir_node_cases:
  obtains (failed) e where "mkdir_node w p = (Inl e, w)"
  | (made) q where "locate w p = Inr q" "node_at w q = None" "q \<noteq> []"
      "mkdir_node w p = (Inr (), w\<lparr>nodes := AList.update q Dir (nodes w)\<rparr>)"
proof (cases "locate w p")
  case (Inl e)
  then have "mkdir_node w p = (Inl e, w)" by (simp add: mkdir_node_def)
  then show ?thesis by (rule failed)
next
  case (Inr q)
  show ?thesis
  proof (cases "normal_last p \<and> node_at w q = None")
    case True
    then have "q \<noteq> []" by (auto simp: node_at_def)
    with True Inr show ?thesis by (intro made [of q]) (simp_all add: mkdir_node_def)
  next
    case False
    with Inr have "mkdir_node w p = (Inl FileExistsError, w)" by (auto simp: mkdir_node_def)
    then show ?thesis by (rule failed)
  qed
qed

lemma extends_update_new:
  "node_at w q = None \<Longrightarrow> extends w (w\<lparr>nodes := AList.update q n (nodes w)\<rparr>)"
  by (cases "q = []") (auto simp: extends_def dirs_kept_def node_at_update)

lemma mkdir_node_extends: "extends w (snd (mkdir_node w p))"
  by (cases rule: mkdir_node_cases [of w p]) (simp_all add: extends_update_new)




section \<open>Properties of create\_screenshot\_folder\<close>

lemma logged_fs [simp]:
  "nodes (snd (logged ev r)) = nodes (snd r)" "cwd (snd (logged ev r)) = cwd (snd r)"
  "open_zips (snd (logged ev r)) = open_zips (snd r)"
  "handles_made (snd (logged ev r)) = handles_made (snd r)"
  by (auto simp: logged_def split: prod.splits sum.splits)

lemma logged_fst [simp]: "fst (logged ev r) = fst r"
  by (auto simp: logged_def split: prod.splits sum.splits)


lemma mkdir_node_cwd [simp]: "cwd (snd (mkdir_node w p)) = cwd w"
  by (cases rule: mkdir_node_cases [of w p]) simp_all






text \<open>
  C3. The claim: an error of \<^verbatim>\<open>os.mkdir\<close> other than the already-exists condition reaches
  the caller. The code returns from the \<^verbatim>\<open>finally\<close> clause, which discards the pending
  error: with the base directory \<^verbatim>\<open>/repo\<close> and the name \<^verbatim>\<open>shots/new\<close>, where \<^verbatim>\<open>/repo/shots\<close>
  does not exist, \<^verbatim>\<open>os.mkdir\<close> fails with \<^verbatim>\<open>FileNotFoundError\<close>, and the function returns the
  path of a folder that was not made.
\<close>

theorem create_screenshot_folder_discards_error:
  "os_mkdir repo_world (joinpath (resolve repo_world (Path ''/repo'')) ''shots/new'')
     = (Inl FileNotFoundError, repo_world)
   \<and> create_screenshot_folder repo_world ''/repo'' ''shots/new''
     = (Inr ''/repo/shots/new'', repo_world)"
  by code_simp

section \<open>Properties of rename\_extracted\_files\<close>


lemma short_names [simp]:
  "fs_length ''selection.json'' \<le> NAME_MAX" "fs_length ''icomoon.json'' \<le> NAME_MAX"
  "fs_length ''style.css'' \<le> NAME_MAX" "fs_length ''devicon.css'' \<le> NAME_MAX"
  by (simp_all add: fs_length_def NAME_MAX_def)








lemma node_at_trace [simp]: "node_at (w\<lparr>trace := t\<rparr>) p = node_at w p"
  by (simp add: node_at_def)

lemma locate_trace [simp]: "locate (w\<lparr>trace := t\<rparr>) p = locate w p"
  by (rule locate_same) simp_all

lemma node_at_py_print [simp]: "node_at (py_print w m) p = node_at w p"
  by (simp add: py_print_def)

lemma locate_py_print [simp]: "locate (py_print w m) p = locate w p"
  by (simp add: py_print_def)












section \<open>Properties of extract\_files\<close>

text \<open>An extraction adds nodes and overwrites regular files; it closes nothing.\<close>

lemma extends_trace [simp]: "extends w (w'\<lparr>trace := t\<rparr>) \<longleftrightarrow> extends w w'"
  by (simp add: extends_def dirs_kept_def)

lemma mkdir_node_frame [simp]:
  "open_zips (snd (mkdir_node w p)) = open_zips w" "trace (snd (mkdir_node w p)) = trace w"
  by (cases rule: mkdir_node_cases [of w p]; simp)+

lemma makedirs_frame:
  "extends w (snd (makedirs w p)) \<and> open_zips (snd (makedirs w p)) = open_zips w
   \<and> trace (snd (makedirs w p)) = trace w"
proof (induction w p rule: makedirs.induct)
  case (1 w p)
  show ?case
  proof (cases "names p \<noteq> [] \<and> \<not> (anchor p = [] \<and> butlast (names p) = [])
                  \<and> \<not> os_path_exists w (parent p)")
    case True
    obtain r w1 where m: "makedirs w (parent p) = (r, w1)" by fastforce
    from 1 [OF True] m
    have f: "extends w w1" "open_zips w1 = open_zips w" "trace w1 = trace w" by simp_all
    have "snd (makedirs w p) = w1 \<or> snd (makedirs w p) = snd (mkdir_node w1 p)"
      by (subst makedirs.simps, subst (2) makedirs.simps)
        (simp add: True m split: sum.splits py_error.splits)
    then show ?thesis
      using f extends_trans [OF f(1) mkdir_node_extends [of w1 p]] by auto
  next
    case False
    then have "makedirs w p = mkdir_node w p"
      by (subst makedirs.simps) auto
    then show ?thesis by (simp add: mkdir_node_extends)
  qed
qed

lemma extends_update_file:
  "node_at w q \<noteq> Some Dir \<Longrightarrow> extends w (w\<lparr>nodes := AList.update q (File x) (nodes w)\<rparr>)"
  by (cases "q = []") (auto simp: extends_def dirs_kept_def node_at_update)

lemma write_file_frame:
  "extends w (snd (write_file w p b)) \<and> open_zips (snd (write_file w p b)) = open_zips w
   \<and> trace (snd (write_file w p b)) = trace w"
  by (auto simp: write_file_def extends_update_file split: sum.splits option.splits node.splits)

lemma extract_member_frame:
  "extends w (snd (extract_member w z m path))
   \<and> open_zips (snd (extract_member w z m path)) = open_zips w
   \<and> trace (snd (extract_member w z m path)) = trace w"
proof (cases "map_of (rev (NameToInfo z)) m")
  case None
  then show ?thesis by (simp add: extract_member_def)
next
  case (Some b)
  define t where "t = targetpath path m"
  define r where "r = (if \<not> (anchor (parent t) = [] \<and> names (parent t) = []) \<and> \<not> os_path_exists w (parent t)
                        then makedirs w (parent t) else (Inr (), w))"
  obtain x w1 where r: "r = (x, w1)" by fastforce
  have f: "extends w w1" "open_zips w1 = open_zips w" "trace w1 = trace w"
    using makedirs_frame [of w "parent t"] r by (auto simp: r_def split: if_splits)
  have "snd (extract_member w z m path) = w1
      \<or> snd (extract_member w z m path) = snd (mkdir_node w1 t)
      \<or> snd (extract_member w z m path) = snd (write_file w1 t b)"
    using r by (auto simp: extract_member_def Some Let_def t_def r_def split: sum.splits)
  then show ?thesis
    using f extends_trans [OF f(1) mkdir_node_extends [of w1 t]]
      extends_trans [OF f(1) conjunct1 [OF write_file_frame [of w1 t b]]]
      write_file_frame [of w1 t b]
    by auto
qed

lemma zip_extract_ok:
  assumes "zip_extract w z m path = (Inr u, w')"
  shows "extends w w' \<and> open_zips w' = open_zips w \<and> trace w' = trace w @ [ZipExtract (filename z) m]"
proof -
  obtain x w1 where e: "extract_member w z m path = (x, w1)" by fastforce
  with assms have "w' = w1\<lparr>trace := trace w1 @ [ZipExtract (filename z) m]\<rparr>"
    by (auto simp: zip_extract_def logged_def split: sum.splits)
  with extract_member_frame [of w z m path] e show ?thesis by simp
qed

lemma extract_loop_ok:
  "extract_loop w z files path = (Inr u, w') \<Longrightarrow>
     extends w w' \<and> open_zips w' = open_zips w
     \<and> trace w' = trace w @ map (ZipExtract (filename z)) files"
proof (induction files arbitrary: w)
  case Nil
  then show ?case by simp
next
  case (Cons f files)
  from Cons.prems obtain w1 where
    a: "zip_extract w z f path = (Inr (), w1)" and b: "extract_loop w1 z files path = (Inr u, w')"
    by (auto split: prod.splits sum.splits)
  from zip_extract_ok [OF a] Cons.IH [OF b] show ?case
    by (auto intro: extends_trans)
qed


lemma locate_file_same:
  "nodes w' = nodes w \<Longrightarrow> cwd w' = cwd w \<Longrightarrow> locate_file w' s = locate_file w s"
  using locate_same [of w' w "Path s"] node_at_same [of w' w]
  by (simp add: locate_file_def split: sum.splits)

lemma locate_file_Inr:
  "locate_file w s = Inr (q, x) \<Longrightarrow>
     locate w (Path s) = Inr q \<and> node_at w q = Some (File x) \<and> \<not> names_directory s \<and> s \<noteq> []"
  by (auto simp: locate_file_def split: if_splits sum.splits option.splits node.splits)

lemma locate_file_extends:
  assumes "extends w w'" "locate_file w s = Inr (q, x)"
  shows "\<exists>y. locate_file w' s = Inr (q, y)"
proof -
  from locate_file_Inr [OF assms(2)]
  have l: "locate w (Path s) = Inr q" and n: "node_at w q = Some (File x)"
    and d: "\<not> names_directory s" "s \<noteq> []" by simp_all
  from assms(1) have k: "dirs_kept w w'" by (simp add: extends_def)
  from locate_dirs_kept [OF k l] have l': "locate w' (Path s) = Inr q" .
  from assms(1) n obtain y where "node_at w' q = Some (File y)"
    by (auto simp: extends_def)
  with l' d show ?thesis by (simp add: locate_file_def)
qed

lemma ZipFile_ok:
  assumes "ZipFile w s = (Inr z, w')"
  shows "(\<exists>ms. locate_file w s = Inr (fp z, ZipArchive ms)) \<and> filename z = s
       \<and> handle z = handles_made w
       \<and> w' = w\<lparr>open_zips := (handles_made w, fp z) # open_zips w,
                 handles_made := Suc (handles_made w),
                 trace := trace w @ [ZipOpen s]\<rparr>"
  using assms
  by (auto simp: ZipFile_def split: sum.splits prod.splits fdata.splits)

lemma os_remove_ok:
  assumes "os_remove w s = (Inr u, w')"
  shows "\<exists>q x. locate_file w s = Inr (q, x)
           \<and> w' = w\<lparr>nodes := AList.delete q (nodes w), trace := trace w @ [OsRemove s]\<rparr>"
  using assms by (auto simp: os_remove_def split: sum.splits prod.splits)

lemma removed_file_absent:
  assumes "locate w p = Inr q" "node_at w q = Some (File x)"
  shows "locate (w\<lparr>nodes := AList.delete q (nodes w), trace := t\<rparr>) p = Inr q
       \<and> node_at (w\<lparr>nodes := AList.delete q (nodes w), trace := t\<rparr>) q = None"
proof -
  let ?w' = "w\<lparr>nodes := AList.delete q (nodes w), trace := t\<rparr>"
  from assms(2) have q: "q \<noteq> []" by (auto simp: node_at_def)
  have "dirs_kept w ?w'"
    using assms(2) q by (auto simp: dirs_kept_def node_at_delete)
  from locate_dirs_kept [OF this assms(1)] have "locate ?w' p = Inr q" .
  then show ?thesis using q by (simp add: node_at_delete)
qed

text \<open>Closing a handle: it is open no more, and a second \<^verbatim>\<open>close()\<close> does nothing.\<close>

lemma zip_close_closed: "\<not> is_open (zip_close w z) z"
  by (auto simp: zip_close_def is_open_def)

lemma zip_close_again: "zip_close (zip_close w z) z = zip_close w z"
  using zip_close_closed [of w z] by (subst zip_close_def) simp

lemma zip_close_open:
  "is_open w z \<Longrightarrow>
     zip_close w z = w\<lparr>open_zips := filter (\<lambda>h. fst h \<noteq> handle z) (open_zips w),
                       trace := trace w @ [ZipClose (filename z)]\<rparr>"
  by (simp add: zip_close_def)

text \<open>
  C5. For every successful run of \<^verbatim>\<open>extract_files\<close> on the archive file \<open>q\<close>, the handle that
  the call opened is open no more when the call has returned, and no handle is open
  that was not open before. When \<^verbatim>\<open>delete\<close> is true, the handle is closed before the archive file is removed
  (the trace ends with the \<^verbatim>\<open>close()\<close>, then the \<^verbatim>\<open>os.remove\<close>), and the archive file exists
  no more. When \<^verbatim>\<open>delete\<close> is false, the archive file still exists, and the handle is
  closed all the same: by \<^verbatim>\<open>ZipFile.__del__\<close>, when the function returns and CPython frees
  its local \<^verbatim>\<open>icomoon_zip\<close> (the function itself has no \<^verbatim>\<open>with\<close> block and calls \<^verbatim>\<open>close()\<close>
  on the \<^verbatim>\<open>delete\<close> path only).
\<close>

theorem extract_files_handle:
  assumes "extract_files w zip_path extract_path delete = (Inr (), w')"
    and "locate w (Path zip_path) = Inr q"
  shows "handles_made w \<notin> set (map fst (open_zips w'))
       \<and> set (open_zips w') \<subseteq> set (open_zips w)
       \<and> locate w' (Path zip_path) = Inr q
       \<and> (delete \<longrightarrow>
            trace w' = trace w @ [Print ''Extracting zipped files...'', ZipOpen zip_path]
                         @ map (ZipExtract zip_path) target_files
                         @ [Print ''Files extracted'', Print ''Deleting devicon zip file...'',
                            ZipClose zip_path, OsRemove zip_path]
            \<and> node_at w' q = None)
       \<and> (\<not> delete \<longrightarrow>
            trace w' = trace w @ [Print ''Extracting zipped files...'', ZipOpen zip_path]
                         @ map (ZipExtract zip_path) target_files
                         @ [Print ''Files extracted'', ZipClose zip_path]
            \<and> is_file_at w' q)"
proof -
  define w0 where "w0 = py_print w ''Extracting zipped files...''"
  from assms(1) obtain z w1 where z: "ZipFile w0 zip_path = (Inr z, w1)"
    by (auto simp: extract_files_def w0_def split: prod.splits sum.splits)
  from assms(1) z obtain w2 where l: "extract_loop w1 z target_files extract_path = (Inr (), w2)"
    by (auto simp: extract_files_def w0_def split: prod.splits sum.splits)
  from ZipFile_ok [OF z] obtain ms where
    lf0: "locate_file w0 zip_path = Inr (fp z, ZipArchive ms)" and fn: "filename z = zip_path"
    and h: "handle z = handles_made w0"
    and w1: "w1 = w0\<lparr>open_zips := (handles_made w0, fp z) # open_zips w0,
                      handles_made := Suc (handles_made w0),
                      trace := trace w0 @ [ZipOpen zip_path]\<rparr>"
    by auto
  have hw: "handle z = handles_made w" using h by (simp add: w0_def py_print_def)
  have "locate w0 (Path zip_path) = Inr (fp z)"
    using locate_file_Inr [OF lf0] by simp
  with assms(2) have q: "fp z = q" by (simp add: w0_def)
  have lf1: "locate_file w1 zip_path = Inr (q, ZipArchive ms)"
    using lf0 q locate_file_same [of w1 w0 zip_path] by (simp add: w1)
  from extract_loop_ok [OF l]
  have e: "extends w1 w2" and o2: "open_zips w2 = open_zips w1"
    and t2: "trace w2 = trace w1 @ map (ZipExtract zip_path) target_files"
    by (simp_all add: fn)
  from locate_file_extends [OF e lf1] obtain y where lf2: "locate_file w2 zip_path = Inr (q, y)" ..
  from locate_file_Inr [OF lf2]
  have l2: "locate w2 (Path zip_path) = Inr q" and n2: "node_at w2 q = Some (File y)" by simp_all
  define w3 where "w3 = py_print w2 ''Files extracted''"
  have o1: "open_zips w1 = (handles_made w, q) # open_zips w"
    and t1: "trace w1 = trace w @ [Print ''Extracting zipped files...'', ZipOpen zip_path]"
    by (simp_all add: w1 w0_def q py_print_def)
  have o3: "open_zips w3 = (handles_made w, q) # open_zips w"
    and t3: "trace w3 = trace w @ [Print ''Extracting zipped files...'', ZipOpen zip_path]
                          @ map (ZipExtract zip_path) target_files @ [Print ''Files extracted'']"
    by (simp_all add: w3_def py_print_def o2 o1 t2 t1)
  have fs3: "nodes w3 = nodes w2" "cwd w3 = cwd w2"
    by (simp_all add: w3_def)
  show ?thesis
  proof (cases delete)
    case False
    have op: "is_open w3 z" by (simp add: is_open_def o3 hw)
    from False assms(1) z l have "w' = ZipFile_del w3 z"
      by (simp add: extract_files_def w0_def w3_def Let_def)
    then have w': "w' = w3\<lparr>open_zips := filter (\<lambda>h. fst h \<noteq> handle z) (open_zips w3),
                         trace := trace w3 @ [ZipClose (filename z)]\<rparr>"
      using zip_close_open [OF op] by (simp add: ZipFile_del_def)
    have fs: "nodes w' = nodes w2" "cwd w' = cwd w2" by (simp_all add: w' fs3)
    have "locate w' (Path zip_path) = Inr q"
      using locate_same [OF fs, of "Path zip_path"] l2 by simp
    moreover have "is_file_at w' q"
      using node_at_same [OF fs(1), of q] n2 by (simp add: is_file_at_def)
    moreover have "handles_made w \<notin> set (map fst (open_zips w'))"
      "set (open_zips w') \<subseteq> set (open_zips w)"
      by (auto simp: w' o3 hw)
    moreover have "trace w' = trace w @ [Print ''Extracting zipped files...'', ZipOpen zip_path]
                         @ map (ZipExtract zip_path) target_files
                         @ [Print ''Files extracted'', ZipClose zip_path]"
      by (simp add: w' t3 fn)
    ultimately show ?thesis using False by simp
  next
    case True
    define w4 where "w4 = py_print w3 ''Deleting devicon zip file...''"
    define w5 where "w5 = zip_close w4 z"
    have op: "is_open w4 z" by (simp add: is_open_def w4_def py_print_def o3 hw)
    have w5: "w5 = w4\<lparr>open_zips := filter (\<lambda>h. fst h \<noteq> handle z) (open_zips w4),
                      trace := trace w4 @ [ZipClose (filename z)]\<rparr>"
      unfolding w5_def using op by (rule zip_close_open)
    from True assms(1) z l obtain w6 where r: "os_remove w5 zip_path = (Inr (), w6)"
      and d: "w' = ZipFile_del w6 z"
      by (auto simp: extract_files_def w0_def w3_def w4_def w5_def Let_def
          split: prod.splits sum.splits)
    have fs5: "nodes w5 = nodes w2" "cwd w5 = cwd w2"
      by (simp_all add: w5 w4_def fs3)
    have lf5: "locate_file w5 zip_path = Inr (q, y)"
      using locate_file_same [OF fs5] lf2 by simp
    from os_remove_ok [OF r] lf5
    have w6: "w6 = w5\<lparr>nodes := AList.delete q (nodes w5), trace := trace w5 @ [OsRemove zip_path]\<rparr>"
      by auto
    have o6: "open_zips w6 = filter (\<lambda>h. fst h \<noteq> handles_made w) (open_zips w)"
      by (simp add: w6 w5 w4_def py_print_def o3 hw)
    then have "\<not> is_open w6 z" by (auto simp: is_open_def hw)
    then have w': "w' = w6" by (simp add: d ZipFile_del_def zip_close_def)
    from locate_file_Inr [OF lf5]
    have "locate w5 (Path zip_path) = Inr q" "node_at w5 q = Some (File y)" by simp_all
    from removed_file_absent [OF this, of "trace w5 @ [OsRemove zip_path]"]
    have "locate w' (Path zip_path) = Inr q" "node_at w' q = None"
      by (simp_all add: w' w6)
    moreover have "handles_made w \<notin> set (map fst (open_zips w'))"
      "set (open_zips w') \<subseteq> set (open_zips w)"
      by (auto simp: w' o6)
    moreover have "trace w' = trace w @ [Print ''Extracting zipped files...'', ZipOpen zip_path]
                         @ map (ZipExtract zip_path) target_files
                         @ [Print ''Files extracted'', Print ''Deleting devicon zip file...'',
                            ZipClose zip_path, OsRemove zip_path]"
      by (simp add: w' w6 w5 w4_def py_print_def t3 fn)
    ultimately show ?thesis using True by simp
  qed
qed

theorem extract_files_handle_witness:
  "extract_files archive_world ''/devicon.zip'' ''/out'' True
     = (Inr (), snd (extract_files archive_world ''/devicon.zip'' ''/out'' True))
   \<and> extract_files archive_world ''/devicon.zip'' ''/out'' False
     = (Inr (), snd (extract_files archive_world ''/devicon.zip'' ''/out'' False))
   \<and> locate archive_world (Path ''/devicon.zip'') = Inr [''devicon.zip'']
   \<and> handles_made archive_world
       \<notin> set (map fst (open_zips (snd (extract_files archive_world ''/devicon.zip'' ''/out'' True))))
   \<and> handles_made archive_world
       \<notin> set (map fst (open_zips (snd (extract_files archive_world ''/devicon.zip'' ''/out'' False))))
   \<and> trace (snd (extract_files archive_world ''/devicon.zip'' ''/out'' True))
       = trace archive_world @ [Print ''Extracting zipped files...'', ZipOpen ''/devicon.zip'']
           @ map (ZipExtract ''/devicon.zip'') target_files
           @ [Print ''Files extracted'', Print ''Deleting devicon zip file...'',
              ZipClose ''/devicon.zip'', OsRemove ''/devicon.zip'']
   \<and> node_at (snd (extract_files archive_world ''/devicon.zip'' ''/out'' True)) [''devicon.zip'']
       = None
   \<and> trace (snd (extract_files archive_world ''/devicon.zip'' ''/out'' False))
       = trace archive_world @ [Print ''Extracting zipped files...'', ZipOpen ''/devicon.zip'']
           @ map (ZipExtract ''/devicon.zip'') target_files
           @ [Print ''Files extracted'', ZipClose ''/devicon.zip'']
   \<and> is_file_at (snd (extract_files archive_world ''/devicon.zip'' ''/out'' False)) [''devicon.zip'']"
proof -
  have t: "fst (extract_files archive_world ''/devicon.zip'' ''/out'' True) = Inr ()"
    by code_simp
  have f: "fst (extract_files archive_world ''/devicon.zip'' ''/out'' False) = Inr ()"
    by code_simp
  have l: "locate archive_world (Path ''/devicon.zip'') = Inr [''devicon.zip'']"
    by code_simp
  have et: "extract_files archive_world ''/devicon.zip'' ''/out'' True
     = (Inr (), snd (extract_files archive_world ''/devicon.zip'' ''/out'' True))"
    using t by (simp add: prod_eq_iff)
  have ef: "extract_files archive_world ''/devicon.zip'' ''/out'' False
     = (Inr (), snd (extract_files archive_world ''/devicon.zip'' ''/out'' False))"
    using f by (simp add: prod_eq_iff)
  from extract_files_handle [OF et l] extract_files_handle [OF ef l] et ef l
  show ?thesis by blast
qed

end
